theory Spec2Isabelle
  imports Complex_Main "HOL-Library.Word" "HOL-Library.Multiset"
begin

section \<open>Arrays\<close>

text \<open>
  A two-dimensional numpy array is a list of rows. Cells are addressed (row, column).
  The land-cover grid holds the codes -9999 and 0..8 (stored by numpy in the dtype of the
  band that was read); they are modelled as integers.
\<close>

type_synonym 'a ndarray = "'a list list"
type_synonym cell = "nat \<times> nat"

definition np_shape :: "'a ndarray \<Rightarrow> nat \<times> nat" where
  "np_shape a = (length a, case a of [] \<Rightarrow> 0 | row # _ \<Rightarrow> length row)"

definition mk_array :: "nat \<times> nat \<Rightarrow> (cell \<Rightarrow> 'a) \<Rightarrow> 'a ndarray" where
  "mk_array shp f = map (\<lambda>r. map (\<lambda>c. f (r, c)) [0..<snd shp]) [0..<fst shp]"

definition cell_at :: "'a ndarray \<Rightarrow> cell \<Rightarrow> 'a" where
  "cell_at a rc = a ! fst rc ! snd rc"

text \<open>\<open>array.fill(v)\<close>: every cell becomes \<open>v\<close>, the shape stays.\<close>

definition fill :: "'a ndarray \<Rightarrow> 'a \<Rightarrow> 'a ndarray" where
  "fill a v = map (map (\<lambda>_. v)) a"

text \<open>
  \<open>np.where(mask, array, v)\<close> with a scalar \<open>v\<close>: the cell of \<open>array\<close> where the mask is
  true, \<open>v\<close> where it is false. The source only calls it with a mask built for the shape of
  \<open>array\<close>, so the two zips never truncate.
\<close>

definition np_where :: "bool ndarray \<Rightarrow> 'a ndarray \<Rightarrow> 'a \<Rightarrow> 'a ndarray" where
  "np_where m a v = map2 (map2 (\<lambda>b x. if b then x else v)) m a"

text \<open>An array of \<open>h\<close> rows of \<open>w\<close> cells each.\<close>

definition rect :: "nat \<Rightarrow> nat \<Rightarrow> 'a ndarray \<Rightarrow> bool" where
  "rect h w a = (length a = h \<and> list_all (\<lambda>row. length row = w) a)"

section \<open>Geometries and the rasterizer\<close>

text \<open>
  A feature carries its geometry as a GeoJSON-like dictionary. \<open>shape\<close> (shapely) turns
  the dictionary into a geometry and raises on a dictionary that describes none;
  \<open>mapping\<close> is its inverse on geometries. The geometries themselves are a type
  parameter \<open>'g\<close>.
\<close>

datatype 'g geojson = GeoJSON 'g | Malformed

datatype error = ShapeError | ValueError | IndexError | AttributeError

definition shape :: "'g geojson \<Rightarrow> error + 'g" where
  "shape j = (case j of GeoJSON g \<Rightarrow> Inr g | Malformed \<Rightarrow> Inl ShapeError)"

definition mapping :: "'g \<Rightarrow> 'g geojson" where
  "mapping g = GeoJSON g"

text \<open>The list comprehension \<open>[shape(x) for x in xs]\<close>: the first failure is raised.\<close>

fun shapes_of :: "'g geojson list \<Rightarrow> error + 'g list" where
  "shapes_of [] = Inr []"
| "shapes_of (j # js) =
     (case shape j of Inl e \<Rightarrow> Inl e
      | Inr g \<Rightarrow> (case shapes_of js of Inl e \<Rightarrow> Inl e | Inr gs \<Rightarrow> Inr (g # gs)))"

text \<open>
  rasterio's rasterizer is a parameter \<open>burn\<close>: for a list of geometries and an affine
  transform it tells which cells the geometries cover, or is \<open>None\<close> where rasterio
  raises ValueError (no valid geometry in the list). \<open>geometry_mask\<close> with
  \<open>invert=False\<close> returns, in the requested shape, the array that is False on the covered
  cells and True everywhere else.
\<close>

type_synonym ('g, 't) burn = "'g list \<Rightarrow> 't \<Rightarrow> (cell \<Rightarrow> bool) option"

definition geometry_mask ::
  "('g, 't) burn \<Rightarrow> 'g list \<Rightarrow> 't \<Rightarrow> nat \<times> nat \<Rightarrow> error + bool ndarray" where
  "geometry_mask burn geoms transform out_shape =
     (case burn geoms transform of
        None \<Rightarrow> Inl ValueError
      | Some inside \<Rightarrow> Inr (mk_array out_shape (\<lambda>rc. \<not> inside rc)))"

section \<open>Feature layers\<close>

text \<open>
  A terrain or road feature as \<open>process_terrain_features\<close> and \<open>process_road_features\<close>
  build it: the geometry and the properties, which hold a \<open>landuse\<close> code or nothing.
\<close>

record 'g feature =
  geometry :: "'g geojson"
  landuse :: "int option"

record 'g water_feature =
  wat_geometry :: "'g geojson"

record 'g building =
  bld_geometry :: "'g geojson"
  parcel_id :: string

text \<open>
  The loop of \<open>convert_to_raster\<close> over the terrain features (lines 301-306) and the
  loop over the road features (lines 308-313), which is the same code under other names:
  each feature with a \<open>landuse\<close> is rasterized by itself and painted over the array.
\<close>

fun rasterize_features ::
  "('g, 't) burn \<Rightarrow> 't \<Rightarrow> 'g feature list \<Rightarrow> int ndarray \<Rightarrow> error + int ndarray" where
  "rasterize_features burn transform [] array = Inr array"
| "rasterize_features burn transform (ter # rest) array =
     (case shape (geometry ter) of
        Inl e \<Rightarrow> Inl e
      | Inr geom \<Rightarrow>
          (case landuse ter of
             None \<Rightarrow> rasterize_features burn transform rest array
           | Some lu \<Rightarrow>
               (case geometry_mask burn [geom] transform (np_shape array) of
                  Inl e \<Rightarrow> Inl e
                | Inr landuse_mask \<Rightarrow>
                    rasterize_features burn transform rest (np_where landuse_mask array lu))))"

text \<open>
  What the loop does to one cell, read off the features alone: \<open>covers\<close> says that the
  feature has a code and its own rasterization covers the cell; \<open>paint\<close> runs over the
  features in list order and lets each covering feature replace the value.
\<close>

definition covers :: "('g, 't) burn \<Rightarrow> 't \<Rightarrow> 'g feature \<Rightarrow> cell \<Rightarrow> bool" where
  "covers burn transform f rc =
     (case landuse f of
        None \<Rightarrow> False
      | Some _ \<Rightarrow>
          (case geometry f of
             Malformed \<Rightarrow> False
           | GeoJSON g \<Rightarrow>
               (case burn [g] transform of None \<Rightarrow> False | Some inside \<Rightarrow> inside rc)))"

fun paint :: "('g, 't) burn \<Rightarrow> 't \<Rightarrow> 'g feature list \<Rightarrow> cell \<Rightarrow> int \<Rightarrow> int" where
  "paint burn transform [] rc v = v"
| "paint burn transform (f # fs) rc v =
     paint burn transform fs rc
       (if covers burn transform f rc then (case landuse f of Some lu \<Rightarrow> lu | None \<Rightarrow> v) else v)"

section \<open>The LandCover object\<close>

text \<open>
  The DTM dataset (a rasterio dataset): its size, its first band, its affine transform
  and its coordinate reference. \<open>read(1)\<close> returns a fresh array of the band.
\<close>

record 't dataset =
  ds_height :: nat
  ds_width :: nat
  ds_band :: "cell \<Rightarrow> int"
  ds_transform :: 't
  ds_crs :: string

definition read1 :: "'t dataset \<Rightarrow> int ndarray" where
  "read1 ds = mk_array (ds_height ds, ds_width ds) (ds_band ds)"

text \<open>
  The fields of a LandCover object that the composition and the updates read or write.
  \<open>update_landcover\<close> writes into the array object that \<open>self.array\<close> refers to, so
  the arrays held by the fields \<open>array\<close>, \<open>og_landcover\<close> and \<open>landcover_withoutbuild\<close>
  are objects of a store and the fields hold references (indices into the store); a field
  that is \<open>None\<close> in Python, or not yet assigned, is \<open>None\<close>. Arrays local to one call
  (every \<open>np.where\<close> returns a new one) are values. \<open>stdout\<close> collects what is printed.
\<close>

type_synonym ref = nat

record ('g, 't) landcover =
  crs :: string
  main_road :: int
  dtm_dataset :: "'t dataset"
  landcover_mapping :: "string \<rightharpoonup> (string \<rightharpoonup> int)"
  terrains :: "'g feature list"
  roads :: "'g feature list"
  water :: "'g water_feature list"
  buildings :: "'g building list"
  transform :: "'t option"
  water_mask :: "bool ndarray option"
  building_mask :: "bool ndarray option"
  array :: "ref option"
  og_landcover :: "ref option"
  landcover_withoutbuild :: "ref option"
  store :: "int ndarray list"
  stdout :: "string list"

definition alloc :: "int ndarray list \<Rightarrow> int ndarray \<Rightarrow> ref \<times> int ndarray list" where
  "alloc st a = (length st, st @ [a])"

definition NODATA :: int where
  "NODATA = - 9999"

text \<open>The water block of \<open>convert_to_raster\<close>, lines 315-323.\<close>

definition rasterize_water ::
  "('g, 't) burn \<Rightarrow> 't \<Rightarrow> ('g, 't) landcover \<Rightarrow> int ndarray \<Rightarrow>
   error + (int ndarray \<times> ('g, 't) landcover)" where
  "rasterize_water burn tr s arr =
     (case shapes_of (map wat_geometry (water s)) of
        Inl e \<Rightarrow> Inl e
      | Inr water_geometries \<Rightarrow>
          if water_geometries = [] then
            Inr (arr, s\<lparr>stdout := stdout s @
              [''No valid water geometries found. Skipping water rasterization.'']\<rparr>)
          else
            (case geometry_mask burn water_geometries tr (np_shape arr) of
               Inl e \<Rightarrow> Inl e
             | Inr wmask \<Rightarrow> Inr (np_where wmask arr 7, s\<lparr>water_mask := Some wmask\<rparr>)))"

text \<open>
  The building block of \<open>convert_to_raster\<close>, lines 325-333. \<open>r\<close> is the object that
  \<open>self.landcover_withoutbuild\<close> was just bound to; it is also what is returned when there
  is no building, and a new object is returned otherwise.
\<close>

definition rasterize_buildings ::
  "('g, 't) burn \<Rightarrow> 't \<Rightarrow> ('g, 't) landcover \<Rightarrow> ref \<Rightarrow> int ndarray \<Rightarrow>
   error + (ref \<times> ('g, 't) landcover)" where
  "rasterize_buildings burn tr s r arr =
     (case shapes_of (map bld_geometry (buildings s)) of
        Inl e \<Rightarrow> Inl e
      | Inr building_geometries \<Rightarrow>
          if building_geometries = [] then
            Inr (r, s\<lparr>stdout := stdout s @
              [''No valid building geometries found. Skipping building rasterization.'']\<rparr>)
          else
            (case geometry_mask burn building_geometries tr (np_shape arr) of
               Inl e \<Rightarrow> Inl e
             | Inr bmask \<Rightarrow>
                 (case alloc (store s) (np_where bmask arr 2) of
                    (r', st) \<Rightarrow> Inr (r', s\<lparr>building_mask := Some bmask, store := st\<rparr>))))"

text \<open>
  \<open>LandCover.convert_to_raster\<close>, lines 286-336. An exception leaves the call at once:
  the result is \<open>Inl\<close>. The call to \<open>visualize_raster\<close> only draws a plot.
\<close>

definition convert_to_raster ::
  "('g, 't) burn \<Rightarrow> ('g, 't) landcover \<Rightarrow> error + (ref \<times> ('g, 't) landcover)" where
  "convert_to_raster burn s =
     (let arr0 = read1 (dtm_dataset s);
          tr = ds_transform (dtm_dataset s);
          s1 = s\<lparr>transform := Some tr\<rparr>;
          arr1 = fill arr0 NODATA
      in case rasterize_features burn tr (terrains s1) arr1 of
           Inl e \<Rightarrow> Inl e
         | Inr arr2 \<Rightarrow>
             (case rasterize_features burn tr (roads s1) arr2 of
                Inl e \<Rightarrow> Inl e
              | Inr arr3 \<Rightarrow>
                  (case rasterize_water burn tr s1 arr3 of
                     Inl e \<Rightarrow> Inl e
                   | Inr (arr4, s2) \<Rightarrow>
                       (case alloc (store s2) arr4 of
                          (r4, st) \<Rightarrow>
                            rasterize_buildings burn tr
                              (s2\<lparr>landcover_withoutbuild := Some r4, store := st\<rparr>) r4 arr4))))"


text \<open>
  A layer's stored mask covers a cell when the mask is there and is False at the cell
  (\<open>geometry_mask\<close> is False inside the geometries).
\<close>

definition layer_covered :: "bool ndarray option \<Rightarrow> cell \<Rightarrow> bool" where
  "layer_covered m rc = (case m of None \<Rightarrow> False | Some msk \<Rightarrow> \<not> cell_at msk rc)"

text \<open>
  The mask that the water block and the building block compute from a layer's geometry
  dictionaries, for a grid of the given shape: none for an empty layer (the block is
  skipped), and none where \<open>shape\<close> or \<open>geometry_mask\<close> raises.
\<close>

definition layer_mask ::
  "('g, 't) burn \<Rightarrow> 't \<Rightarrow> nat \<times> nat \<Rightarrow> 'g geojson list \<Rightarrow> bool ndarray option" where
  "layer_mask burn tr shp js =
     (case shapes_of js of
        Inl e \<Rightarrow> None
      | Inr gs \<Rightarrow>
          if gs = [] then None
          else (case geometry_mask burn gs tr shp of Inl e \<Rightarrow> None | Inr m \<Rightarrow> Some m))"

text \<open>
  The object as \<open>__init__\<close> has it before line 71: the features are loaded
  (\<open>get_features\<close>, whose results are the four lists), the masks are \<open>None\<close>, no array
  exists yet.
\<close>

definition fresh_landcover ::
  "string \<Rightarrow> int \<Rightarrow> 't dataset \<Rightarrow> (string \<rightharpoonup> (string \<rightharpoonup> int)) \<Rightarrow>
   'g feature list \<Rightarrow> 'g feature list \<Rightarrow> 'g water_feature list \<Rightarrow> 'g building list \<Rightarrow>
   ('g, 't) landcover" where
  "fresh_landcover c mr ds lm ts rs ws bs =
     \<lparr>crs = c, main_road = mr, dtm_dataset = ds, landcover_mapping = lm,
      terrains = ts, roads = rs, water = ws, buildings = bs,
      transform = None, water_mask = None, building_mask = None,
      array = None, og_landcover = None, landcover_withoutbuild = None,
      store = [], stdout = []\<rparr>"

text \<open>
  Lines 71-73 of \<open>__init__\<close>: \<open>self.array\<close> and \<open>self.og_landcover\<close> are bound to the
  one array object that \<open>convert_to_raster\<close> returned, and \<open>self.landcover_withoutbuild\<close>,
  which \<open>convert_to_raster\<close> had set, is set to \<open>None\<close>.
\<close>

definition landcover_init ::
  "('g, 't) burn \<Rightarrow> string \<Rightarrow> int \<Rightarrow> 't dataset \<Rightarrow> (string \<rightharpoonup> (string \<rightharpoonup> int)) \<Rightarrow>
   'g feature list \<Rightarrow> 'g feature list \<Rightarrow> 'g water_feature list \<Rightarrow> 'g building list \<Rightarrow>
   error + ('g, 't) landcover" where
  "landcover_init burn c mr ds lm ts rs ws bs =
     (case convert_to_raster burn (fresh_landcover c mr ds lm ts rs ws bs) of
        Inl e \<Rightarrow> Inl e
      | Inr (r, s) \<Rightarrow>
          Inr (s\<lparr>array := Some r, og_landcover := Some r, landcover_withoutbuild := None\<rparr>))"

section \<open>Example inputs\<close>

text \<open>
  A rasterizer for the examples: a geometry is the list of the cells it covers, the
  transform is trivial, and an empty list of geometries is refused as rasterio does.
\<close>

definition ex_burn :: "(cell list, unit) burn" where
  "ex_burn gs t = (if gs = [] then None else Some (\<lambda>rc. \<exists>g\<in>set gs. rc \<in> set g))"

definition ex_dataset :: "unit dataset" where
  "ex_dataset = \<lparr>ds_height = 1, ds_width = 4, ds_band = (\<lambda>_. 0), ds_transform = (),
     ds_crs = ''EPSG:28992''\<rparr>"

text \<open>
  One row of four cells. The terrain covers all of it with code 5, a road the first three
  cells with code 1, the water the first two, a building the first.
\<close>

definition ex_terrain :: "cell list feature" where
  "ex_terrain = \<lparr>geometry = GeoJSON [(0, 0), (0, 1), (0, 2), (0, 3)], landuse = Some 5\<rparr>"

definition ex_road :: "cell list feature" where
  "ex_road = \<lparr>geometry = GeoJSON [(0, 0), (0, 1), (0, 2)], landuse = Some 1\<rparr>"

definition ex_water :: "cell list water_feature" where
  "ex_water = \<lparr>wat_geometry = GeoJSON [(0, 0), (0, 1)]\<rparr>"

definition ex_building :: "cell list building" where
  "ex_building = \<lparr>bld_geometry = GeoJSON [(0, 0)], parcel_id = ''b1''\<rparr>"

definition ex_layers ::
  "cell list feature list \<Rightarrow> cell list feature list \<Rightarrow> cell list water_feature list \<Rightarrow>
   cell list building list \<Rightarrow> (cell list, unit) landcover" where
  "ex_layers ts rs ws bs =
     fresh_landcover ''EPSG:28992'' 0 ex_dataset Map.empty ts rs ws bs"

section \<open>Features of one layer\<close>

text \<open>
  The features of a layer are disjoint at a cell when at most one of them covers it.
\<close>

definition disjoint_at :: "('g, 't) burn \<Rightarrow> 't \<Rightarrow> 'g feature list \<Rightarrow> cell \<Rightarrow> bool" where
  "disjoint_at burn tr fs rc = (length (filter (\<lambda>f. covers burn tr f rc) fs) \<le> 1)"

text \<open>Two features of one layer that overlap in the cell (0, 1).\<close>

definition ex_f1 :: "cell list feature" where
  "ex_f1 = \<lparr>geometry = GeoJSON [(0, 0), (0, 1)], landuse = Some 5\<rparr>"

definition ex_f2 :: "cell list feature" where
  "ex_f2 = \<lparr>geometry = GeoJSON [(0, 1), (0, 2)], landuse = Some 6\<rparr>"

section \<open>The returned grid as a value\<close>

text \<open>
  \<open>grid_of\<close> reads the array that a call of \<open>convert_to_raster\<close> returned out of the
  store. \<open>compose_grid\<close> is the same grid computed without the object: the two loops,
  then the water mask painted with 7 and the building mask painted with 2
  (\<open>overlay\<close>). Lemma \<open>convert_to_raster_grid\<close> proves that they agree.
\<close>

definition grid_of :: "error + (ref \<times> ('g, 't) landcover) \<Rightarrow> error + int ndarray" where
  "grid_of res = (case res of Inl e \<Rightarrow> Inl e | Inr (r, s) \<Rightarrow> Inr (store s ! r))"

definition overlay ::
  "('g, 't) burn \<Rightarrow> 't \<Rightarrow> 'g geojson list \<Rightarrow> int ndarray \<Rightarrow> int \<Rightarrow> error + int ndarray" where
  "overlay burn tr js arr v =
     (case shapes_of js of
        Inl e \<Rightarrow> Inl e
      | Inr gs \<Rightarrow>
          if gs = [] then Inr arr
          else (case geometry_mask burn gs tr (np_shape arr) of
                  Inl e \<Rightarrow> Inl e
                | Inr m \<Rightarrow> Inr (np_where m arr v)))"

definition compose_grid :: "('g, 't) burn \<Rightarrow> ('g, 't) landcover \<Rightarrow> error + int ndarray" where
  "compose_grid burn s =
     (case rasterize_features burn (ds_transform (dtm_dataset s)) (terrains s)
             (fill (read1 (dtm_dataset s)) NODATA) of
        Inl e \<Rightarrow> Inl e
      | Inr arr2 \<Rightarrow>
          (case rasterize_features burn (ds_transform (dtm_dataset s)) (roads s) arr2 of
             Inl e \<Rightarrow> Inl e
           | Inr arr3 \<Rightarrow>
               (case overlay burn (ds_transform (dtm_dataset s))
                       (map wat_geometry (water s)) arr3 7 of
                  Inl e \<Rightarrow> Inl e
                | Inr arr4 \<Rightarrow>
                    overlay burn (ds_transform (dtm_dataset s))
                      (map bld_geometry (buildings s)) arr4 2)))"

text \<open>What a call of \<open>convert_to_raster\<close> has printed when it returns.\<close>

definition printed :: "error + (ref \<times> ('g, 't) landcover) \<Rightarrow> error + string list" where
  "printed res = (case res of Inl e \<Rightarrow> Inl e | Inr (r, s) \<Rightarrow> Inr (stdout s))"

text \<open>
  An object whose features were requested in EPSG:4326 over a grid in EPSG:28992, and a
  terrain feature whose geometry dictionary describes no geometry.
\<close>

definition ex_mismatch :: "(cell list, unit) landcover" where
  "ex_mismatch = fresh_landcover ''EPSG:4326'' 0 ex_dataset Map.empty [ex_terrain] [] [] []"

definition ex_malformed :: "cell list feature" where
  "ex_malformed = \<lparr>geometry = Malformed, landuse = Some 3\<rparr>"

text \<open>The two notes that \<open>convert_to_raster\<close> prints for an empty layer.\<close>

definition water_note :: string where
  "water_note = ''No valid water geometries found. Skipping water rasterization.''"

definition building_note :: string where
  "building_note = ''No valid building geometries found. Skipping building rasterization.''"

section \<open>Classifying the features\<close>

text \<open>\<open>d.get(k, dflt)\<close> on a dictionary.\<close>

definition dict_get :: "('k \<rightharpoonup> 'v) \<Rightarrow> 'k \<Rightarrow> 'v \<Rightarrow> 'v" where
  "dict_get d k dflt = (case d k of None \<Rightarrow> dflt | Some v \<Rightarrow> v)"

text \<open>
  \<open>str.lower()\<close>, on the ASCII letters; the type names of the code table and of the
  features are taken to be ASCII.
\<close>

definition str_lower :: "string \<Rightarrow> string" where
  "str_lower s = map (\<lambda>ch. let n = (of_char ch :: nat) in
      if 65 \<le> n \<and> n \<le> 90 then char_of (n + 32) else ch) s"

text \<open>
  \<open>LandCover.get_landcover_code\<close>, lines 107-120. The code table
  \<open>landcover_mapping\<close> maps the categories "terrain" and "road" to dictionaries from
  type name to code.
\<close>

definition get_landcover_code :: "(string \<rightharpoonup> (string \<rightharpoonup> int)) \<Rightarrow> string \<Rightarrow> bool \<Rightarrow> int" where
  "get_landcover_code lm land_type isroad =
     (let category = (if isroad then ''road'' else ''terrain'')
      in dict_get (dict_get lm category Map.empty) (str_lower land_type) (- 1))"

text \<open>
  A feature as the TOP10NL service returns it (\<open>get_top10nl\<close> fetches them; the
  fetched lists are inputs here): a geometry dictionary and the attributes.
\<close>

record 'g api_feature =
  api_geometry :: "'g geojson"
  api_properties :: "string \<rightharpoonup> string"

text \<open>
  The body of the loop of \<open>process_terrain_features\<close>, lines 192-204, and of
  \<open>process_road_features\<close>, lines 220-238: \<open>landusetype\<close> and \<open>verhardingstype\<close> are
  the lowered attribute, \<open>terrain_landuse_value\<close> and \<open>road_landuse_value\<close> the local
  \<open>landuse_value\<close> (-1 on a lookup miss; a road whose type is "verhard" gets
  \<open>main_road\<close> without a lookup), \<open>new_properties\<close> the properties of the feature that
  is built: the code, or nothing when the value is -1. \<open>is_polygon\<close> stands for
  \<open>isinstance(geom, (Polygon, MultiPolygon))\<close>; other geometries are dropped.
\<close>

definition landusetype :: "'g api_feature \<Rightarrow> string" where
  "landusetype ter = str_lower (dict_get (api_properties ter) ''typelandgebruik'' '''')"

definition terrain_landuse_value :: "(string \<rightharpoonup> (string \<rightharpoonup> int)) \<Rightarrow> 'g api_feature \<Rightarrow> int" where
  "terrain_landuse_value lm ter =
     dict_get (dict_get lm ''terrain'' Map.empty) (landusetype ter) (- 1)"

definition verhardingstype :: "'g api_feature \<Rightarrow> string" where
  "verhardingstype road = str_lower (dict_get (api_properties road) ''verhardingstype'' '''')"

definition road_landuse_value ::
  "int \<Rightarrow> (string \<rightharpoonup> (string \<rightharpoonup> int)) \<Rightarrow> 'g api_feature \<Rightarrow> int" where
  "road_landuse_value mr lm road =
     (if verhardingstype road = ''verhard'' then mr
      else dict_get (dict_get lm ''road'' Map.empty) (verhardingstype road) (- 1))"

definition new_properties :: "int \<Rightarrow> int option" where
  "new_properties landuse_value = (if landuse_value \<noteq> - 1 then Some landuse_value else None)"

definition terrain_feature ::
  "('g \<Rightarrow> bool) \<Rightarrow> (string \<rightharpoonup> (string \<rightharpoonup> int)) \<Rightarrow> 'g api_feature \<Rightarrow>
   error + 'g feature option" where
  "terrain_feature is_polygon lm ter =
     (case shape (api_geometry ter) of
        Inl e \<Rightarrow> Inl e
      | Inr geom \<Rightarrow>
          Inr (if is_polygon geom
               then Some \<lparr>geometry = mapping geom,
                          landuse = new_properties (terrain_landuse_value lm ter)\<rparr>
               else None))"

definition road_feature ::
  "('g \<Rightarrow> bool) \<Rightarrow> int \<Rightarrow> (string \<rightharpoonup> (string \<rightharpoonup> int)) \<Rightarrow> 'g api_feature \<Rightarrow>
   error + 'g feature option" where
  "road_feature is_polygon mr lm road =
     (case shape (api_geometry road) of
        Inl e \<Rightarrow> Inl e
      | Inr geom \<Rightarrow>
          Inr (if is_polygon geom
               then Some \<lparr>geometry = mapping geom,
                          landuse = new_properties (road_landuse_value mr lm road)\<rparr>
               else None))"

text \<open>The loops themselves: each feature in turn, the first exception ends the call.\<close>

fun collect_features :: "('a \<Rightarrow> error + 'b option) \<Rightarrow> 'a list \<Rightarrow> error + 'b list" where
  "collect_features body [] = Inr []"
| "collect_features body (x # xs) =
     (case body x of
        Inl e \<Rightarrow> Inl e
      | Inr fo \<Rightarrow>
          (case collect_features body xs of
             Inl e \<Rightarrow> Inl e
           | Inr fs \<Rightarrow> Inr (case fo of None \<Rightarrow> fs | Some f \<Rightarrow> f # fs)))"

definition process_terrain_features ::
  "('g \<Rightarrow> bool) \<Rightarrow> (string \<rightharpoonup> (string \<rightharpoonup> int)) \<Rightarrow> 'g api_feature list \<Rightarrow>
   error + 'g feature list" where
  "process_terrain_features is_polygon lm terreindata =
     collect_features (terrain_feature is_polygon lm) terreindata"

definition process_road_features ::
  "('g \<Rightarrow> bool) \<Rightarrow> int \<Rightarrow> (string \<rightharpoonup> (string \<rightharpoonup> int)) \<Rightarrow> 'g api_feature list \<Rightarrow>
   error + 'g feature list" where
  "process_road_features is_polygon mr lm wegdata =
     collect_features (road_feature is_polygon mr lm) wegdata"

text \<open>
  A code table, a terrain feature and a road feature whose types are not in it, and the
  feature that \<open>process_terrain_features\<close> builds for the former.
\<close>

definition ex_table :: "string \<rightharpoonup> (string \<rightharpoonup> int)" where
  "ex_table = [''terrain'' \<mapsto> [''grasland'' \<mapsto> 5, ''akker'' \<mapsto> 6],
               ''road'' \<mapsto> [''onverhard'' \<mapsto> 3, ''halfverhard'' \<mapsto> 4]]"

definition ex_unknown :: "cell list api_feature" where
  "ex_unknown = \<lparr>api_geometry = GeoJSON [(0, 1), (0, 2)],
     api_properties = [''typelandgebruik'' \<mapsto> ''Duin'']\<rparr>"

definition ex_unknown_road :: "cell list api_feature" where
  "ex_unknown_road = \<lparr>api_geometry = GeoJSON [(0, 0)],
     api_properties = [''verhardingstype'' \<mapsto> ''Onbekend'']\<rparr>"

definition ex_nocode :: "cell list feature" where
  "ex_nocode = \<lparr>geometry = GeoJSON [(0, 1), (0, 2)], landuse = None\<rparr>"

section \<open>Updating the grid\<close>

text \<open>The array that a field refers to, if the field is set.\<close>

definition deref :: "int ndarray list \<Rightarrow> ref option \<Rightarrow> int ndarray option" where
  "deref st field = (case field of None \<Rightarrow> None
     | Some r \<Rightarrow> if r < length st then Some (st ! r) else None)"

text \<open>
  \<open>LandCover.update_build_landcover\<close>, lines 380-396: \<open>np.where\<close> builds a new array
  and \<open>self.array\<close> is bound to it. The fields it reads are set once \<open>__init__\<close> has
  returned; the branch for an unset field is there for totality.
\<close>

definition update_build_landcover ::
  "('g, 't) burn \<Rightarrow> 'g building list \<Rightarrow> ('g, 't) landcover \<Rightarrow> error + ('g, 't) landcover" where
  "update_build_landcover burn new_building_data s =
     (case shapes_of (map bld_geometry new_building_data) of
        Inl e \<Rightarrow> Inl e
      | Inr building_geometries \<Rightarrow>
          if building_geometries = [] then
            Inr (s\<lparr>stdout := stdout s @ [building_note]\<rparr>)
          else
            (case (transform s, deref (store s) (array s)) of
               (Some tr, Some arr) \<Rightarrow>
                 (case geometry_mask burn building_geometries tr (np_shape arr) of
                    Inl e \<Rightarrow> Inl e
                  | Inr bmask \<Rightarrow>
                      (case alloc (store s) (np_where bmask arr 2) of
                         (r, st) \<Rightarrow> Inr (s\<lparr>array := Some r, store := st\<rparr>)))
             | _ \<Rightarrow> Inl AttributeError))"

text \<open>
  \<open>LandCover.update_landcover\<close>, lines 398-410: \<open>self.array[to_update] = land_type\<close>
  writes into the array object that \<open>self.array\<close> refers to. A boolean index of another
  shape is an IndexError.
\<close>

definition update_landcover ::
  "int \<Rightarrow> int ndarray \<Rightarrow> ('g, 't) landcover \<Rightarrow> error + ('g, 't) landcover" where
  "update_landcover land_type input_array s =
     (let to_update = map (map (\<lambda>x. x > - 1)) input_array
      in case (array s, deref (store s) (array s)) of
           (Some r, Some arr) \<Rightarrow>
             if np_shape to_update \<noteq> np_shape arr then Inl IndexError
             else Inr (s\<lparr>store := (store s)[r :=
                    map2 (map2 (\<lambda>b x. if b then land_type else x)) to_update arr]\<rparr>)
         | _ \<Rightarrow> Inl AttributeError)"

text \<open>
  An object over the example grid with the terrain feature only, and two helpers to run
  an operation on the result of the previous one and to read a field's array.
\<close>

definition ex_object :: "error + (cell list, unit) landcover" where
  "ex_object = landcover_init ex_burn ''EPSG:28992'' 0 ex_dataset Map.empty
     [ex_terrain] [] [] []"

definition then_do ::
  "error + 's \<Rightarrow> ('s \<Rightarrow> error + 's) \<Rightarrow> error + 's" where
  "then_do res f = (case res of Inl e \<Rightarrow> Inl e | Inr s \<Rightarrow> f s)"

definition field_array ::
  "(('g, 't) landcover \<Rightarrow> ref option) \<Rightarrow> error + ('g, 't) landcover \<Rightarrow> error + int ndarray option" where
  "field_array field res =
     (case res of Inl e \<Rightarrow> Inl e | Inr s \<Rightarrow> Inr (deref (store s) (field s)))"

section \<open>The Buildings object\<close>

text \<open>
  The library functions that \<open>insert_user_buildings\<close> calls are parameters, collected in
  one record: \<open>scipy.ndimage.label\<close> (labelled array and number of labels),
  \<open>rasterio.features.shapes\<close> on an 8-bit image under a mask (the polygons, given by the
  geometries that its GeoJSON-like dictionaries describe, each with the pixel value),
  the bounds of a geometry, shapely's \<open>intersects\<close> and \<open>within\<close>, the query
  \<open>intersection\<close> of an rtree index holding the given (id, bounds) entries, and the
  strings \<open>str(uuid.uuid4())\<close> in the order in which a call draws them.
\<close>

record ('g, 'b, 't) geo =
  lib_label :: "bool ndarray \<Rightarrow> nat ndarray \<times> nat"
  lib_shapes :: "8 word ndarray \<Rightarrow> bool ndarray \<Rightarrow> 't \<Rightarrow> ('g \<times> 8 word) list"
  lib_bounds :: "'g \<Rightarrow> 'b"
  lib_intersects :: "'g \<Rightarrow> 'g \<Rightarrow> bool"
  lib_within :: "'g \<Rightarrow> 'g \<Rightarrow> bool"
  lib_rtree_intersection :: "(nat \<times> 'b) list \<Rightarrow> 'b \<Rightarrow> nat list"
  lib_uuid4 :: "nat \<Rightarrow> string"

text \<open>The fields of a Buildings object that the user-building operations touch.\<close>

record 'g buildings_obj =
  removed_buildings :: "string list"
  user_buildings :: "'g building list"
  user_buildings_higher :: "'g building list"
  removed_user_buildings :: "string list"
  is3D :: bool

text \<open>
  \<open>a > 0\<close> on an array, \<open>a.astype(np.uint8)\<close> on an array of labels (the cast wraps
  modulo 256), and \<open>enumerate\<close> counting from \<open>n\<close>.
\<close>

definition positive :: "('a :: {zero, ord}) ndarray \<Rightarrow> bool ndarray" where
  "positive a = map (map (\<lambda>x. x > 0)) a"

definition astype_uint8 :: "nat ndarray \<Rightarrow> 8 word ndarray" where
  "astype_uint8 a = map (map of_nat) a"

definition enumerate_from :: "nat \<Rightarrow> 'a list \<Rightarrow> (nat \<times> 'a) list" where
  "enumerate_from n xs = zip [n..<n + length xs] xs"

text \<open>
  Lines 606-613, and again lines 621-629 for the footprint array: the positive cells are
  labelled, the labelled array is vectorized under the mask of its positive cells, and
  every shape becomes a building with the first eight characters of a fresh uuid; the
  \<open>n\<close>-th to \<open>(n + k - 1)\<close>-th uuid of the call for a list of \<open>k\<close> shapes. A shape
  comes as the geometry \<open>geom\<close> that its dictionary describes, so
  \<open>mapping(shape(...))\<close> of the dictionary is \<open>mapping geom\<close>.
\<close>

definition extract_shapes ::
  "('g, 'b, 't) geo \<Rightarrow> ('a :: {zero, ord}) ndarray \<Rightarrow> 't \<Rightarrow> ('g \<times> 8 word) list" where
  "extract_shapes L arr tr =
     (case lib_label L (positive arr) of
        (labeled_array, num_clusters) \<Rightarrow>
          lib_shapes L (astype_uint8 labeled_array) (positive labeled_array) tr)"

definition blob_buildings ::
  "('g, 'b, 't) geo \<Rightarrow> nat \<Rightarrow> ('g \<times> 8 word) list \<Rightarrow> 'g building list" where
  "blob_buildings L n shps =
     map (\<lambda>(i, (geom, v)). \<lparr>bld_geometry = mapping geom, parcel_id = take 8 (lib_uuid4 L i)\<rparr>)
       (enumerate_from n shps)"

text \<open>
  The test of line 641:
  \<open>footprint_geom.intersects(highest_geom) or footprint_geom.within(highest_geom)\<close>.
\<close>

definition matches :: "('g, 'b, 't) geo \<Rightarrow> 'g \<Rightarrow> 'g \<Rightarrow> bool" where
  "matches L footprint_geom highest_geom =
     (lib_intersects L footprint_geom highest_geom \<or> lib_within L footprint_geom highest_geom)"

text \<open>The entries inserted into the rtree index, lines 616-619.\<close>

fun rtree_entries :: "('g, 'b, 't) geo \<Rightarrow> (nat \<times> 'g building) list \<Rightarrow> error + (nat \<times> 'b) list" where
  "rtree_entries L [] = Inr []"
| "rtree_entries L ((idx, building) # rest) =
     (case shape (bld_geometry building) of
        Inl e \<Rightarrow> Inl e
      | Inr geom \<Rightarrow>
          (case rtree_entries L rest of
             Inl e \<Rightarrow> Inl e
           | Inr es \<Rightarrow> Inr ((idx, lib_bounds L geom) # es)))"

text \<open>
  The inner loop, lines 637-643, over the candidates that the index returned: the first
  candidate that passes the test gives its identifier and ends the loop; the result is
  \<open>None\<close> when no candidate passes. Indexing \<open>highest_buildings\<close> out of range raises
  IndexError.
\<close>

fun first_match ::
  "('g, 'b, 't) geo \<Rightarrow> 'g \<Rightarrow> 'g building list \<Rightarrow> nat list \<Rightarrow> error + string option" where
  "first_match L footprint_geom highest_buildings [] = Inr None"
| "first_match L footprint_geom highest_buildings (match_idx # rest) =
     (if match_idx < length highest_buildings then
        (case shape (bld_geometry (highest_buildings ! match_idx)) of
           Inl e \<Rightarrow> Inl e
         | Inr highest_geom \<Rightarrow>
             if matches L footprint_geom highest_geom
             then Inr (Some (parcel_id (highest_buildings ! match_idx)))
             else first_match L footprint_geom highest_buildings rest)
      else Inl IndexError)"

text \<open>The outer loop, lines 631-643, over the footprint buildings.\<close>

fun match_footprints ::
  "('g, 'b, 't) geo \<Rightarrow> (nat \<times> 'b) list \<Rightarrow> 'g building list \<Rightarrow> 'g building list \<Rightarrow>
   error + 'g building list" where
  "match_footprints L rtree_index highest_buildings [] = Inr []"
| "match_footprints L rtree_index highest_buildings (footprint_building # rest) =
     (case shape (bld_geometry footprint_building) of
        Inl e \<Rightarrow> Inl e
      | Inr footprint_geom \<Rightarrow>
          (case first_match L footprint_geom highest_buildings
                  (lib_rtree_intersection L rtree_index (lib_bounds L footprint_geom)) of
             Inl e \<Rightarrow> Inl e
           | Inr found \<Rightarrow>
               (case match_footprints L rtree_index highest_buildings rest of
                  Inl e \<Rightarrow> Inl e
                | Inr matched_rest \<Rightarrow>
                    Inr ((case found of
                            None \<Rightarrow> footprint_building
                          | Some pid \<Rightarrow> footprint_building\<lparr>parcel_id := pid\<rparr>) # matched_rest))))"

text \<open>\<open>Buildings.insert_user_buildings\<close>, lines 601-647.\<close>

definition insert_user_buildings ::
  "('g, 'b, 't) geo \<Rightarrow> ('a :: {zero, ord}) ndarray \<Rightarrow> 't \<Rightarrow> 'a ndarray option \<Rightarrow>
   'g buildings_obj \<Rightarrow> error + 'g buildings_obj" where
  "insert_user_buildings L highest_array tr footprint_array s =
     (let s1 = s\<lparr>is3D := (footprint_array \<noteq> None), removed_user_buildings := [],
                 user_buildings_higher := []\<rparr>;
          highest_buildings = blob_buildings L 0 (extract_shapes L highest_array tr)
      in case footprint_array of
           None \<Rightarrow> Inr (s1\<lparr>user_buildings := highest_buildings\<rparr>)
         | Some fa \<Rightarrow>
             (case rtree_entries L (enumerate_from 0 highest_buildings) of
                Inl e \<Rightarrow> Inl e
              | Inr rtree_index \<Rightarrow>
                  (let footprint_buildings =
                         blob_buildings L (length highest_buildings) (extract_shapes L fa tr)
                   in case match_footprints L rtree_index highest_buildings footprint_buildings of
                        Inl e \<Rightarrow> Inl e
                      | Inr matched \<Rightarrow>
                          Inr (s1\<lparr>user_buildings := matched,
                                   user_buildings_higher := highest_buildings\<rparr>))))"

text \<open>\<open>Buildings.remove_user_buildings\<close>, lines 649-650.\<close>

definition remove_user_buildings :: "string \<Rightarrow> 'g buildings_obj \<Rightarrow> 'g buildings_obj" where
  "remove_user_buildings identification s =
     s\<lparr>removed_user_buildings := removed_user_buildings s @ [identification]\<rparr>"

text \<open>
  For stating what the matching computes: the index entries built from a list of shapes,
  the candidates that the index returns for a footprint geometry, the condition that the
  index returns only identifiers it was given (\<open>candidates_in_range\<close>), and the building
  that a footprint building becomes.
\<close>

definition rtree_index_of :: "('g, 'b, 't) geo \<Rightarrow> ('g \<times> 8 word) list \<Rightarrow> (nat \<times> 'b) list" where
  "rtree_index_of L shps = map (\<lambda>(i, (geom, v)). (i, lib_bounds L geom)) (enumerate_from 0 shps)"

definition candidates ::
  "('g, 'b, 't) geo \<Rightarrow> ('g \<times> 8 word) list \<Rightarrow> 'g \<Rightarrow> nat list" where
  "candidates L shps footprint_geom =
     lib_rtree_intersection L (rtree_index_of L shps) (lib_bounds L footprint_geom)"

definition candidates_in_range ::
  "('g, 'b, 't) geo \<Rightarrow> ('g \<times> 8 word) list \<Rightarrow> ('g \<times> 8 word) list \<Rightarrow> bool" where
  "candidates_in_range L shps fshps =
     list_all (\<lambda>(fg, v). list_all (\<lambda>i. i < length shps) (candidates L shps fg)) fshps"

definition matched_building ::
  "('g, 'b, 't) geo \<Rightarrow> ('g \<times> 8 word) list \<Rightarrow> 'g building list \<Rightarrow>
   'g building \<times> ('g \<times> 8 word) \<Rightarrow> 'g building" where
  "matched_building L shps highest_buildings p =
     (case p of (fb, (fg, v)) \<Rightarrow>
        (case find (\<lambda>i. matches L fg (fst (shps ! i))) (candidates L shps fg) of
           None \<Rightarrow> fb
         | Some i \<Rightarrow> fb\<lparr>parcel_id := parcel_id (highest_buildings ! i)\<rparr>))"

text \<open>
  Example inputs. In \<open>ex_highest\<close> the positive cells form an L-shaped region and a
  vertical bar; in \<open>ex_footprint\<close> a horizontal bar and a single cell that touches it
  only diagonally; in \<open>ex_diagonal\<close> two cells that touch only diagonally. A geometry is
  the list of its cells, its bounds are the bounding box, and the library functions are
  given on these inputs.
\<close>

definition ex_highest :: "int ndarray" where
  "ex_highest = [[1, 1, 0, 1], [1, 0, 0, 1], [0, 0, 0, 0]]"

definition ex_footprint :: "int ndarray" where
  "ex_footprint = [[0, 0, 0, 0], [0, 1, 1, 1], [1, 0, 0, 0]]"

definition ex_diagonal :: "int ndarray" where
  "ex_diagonal = [[1, 0], [0, 1]]"

definition ex_label :: "bool ndarray \<Rightarrow> nat ndarray \<times> nat" where
  "ex_label m =
     (if m = positive ex_highest then ([[1, 1, 0, 2], [1, 0, 0, 2], [0, 0, 0, 0]], 2)
      else if m = positive ex_footprint then ([[0, 0, 0, 0], [0, 1, 1, 1], [2, 0, 0, 0]], 2)
      else if m = positive ex_diagonal then ([[1, 0], [0, 2]], 2)
      else (map (map (\<lambda>_. 0)) m, 0))"

definition ex_shapes :: "8 word ndarray \<Rightarrow> bool ndarray \<Rightarrow> unit \<Rightarrow> (cell list \<times> 8 word) list" where
  "ex_shapes img msk t =
     (if img = [[1, 1, 0, 2], [1, 0, 0, 2], [0, 0, 0, 0]]
      then [([(0, 0), (0, 1), (1, 0)], 1), ([(0, 3), (1, 3)], 2)]
      else if img = [[0, 0, 0, 0], [0, 1, 1, 1], [2, 0, 0, 0]]
      then [([(1, 1), (1, 2), (1, 3)], 1), ([(2, 0)], 2)]
      else if img = [[1, 0], [0, 2]]
      then [([(0, 0)], 1), ([(1, 1)], 2)]
      else [])"

definition ex_bounds :: "cell list \<Rightarrow> (nat \<times> nat) \<times> (nat \<times> nat)" where
  "ex_bounds g =
     ((fold min (map fst g) (fst (hd g)), fold min (map snd g) (snd (hd g))),
      (fold max (map fst g) (fst (hd g)), fold max (map snd g) (snd (hd g))))"

definition ex_overlap :: "(nat \<times> nat) \<times> (nat \<times> nat) \<Rightarrow> (nat \<times> nat) \<times> (nat \<times> nat) \<Rightarrow> bool" where
  "ex_overlap a b =
     (fst (fst a) \<le> fst (snd b) \<and> fst (fst b) \<le> fst (snd a) \<and>
      snd (fst a) \<le> snd (snd b) \<and> snd (fst b) \<le> snd (snd a))"

definition ex_geo :: "(cell list, (nat \<times> nat) \<times> (nat \<times> nat), unit) geo" where
  "ex_geo = \<lparr>lib_label = ex_label, lib_shapes = ex_shapes, lib_bounds = ex_bounds,
     lib_intersects = (\<lambda>a b. list_ex (\<lambda>p. p \<in> set b) a),
     lib_within = (\<lambda>a b. a \<noteq> [] \<and> list_all (\<lambda>p. p \<in> set b) a),
     lib_rtree_intersection = (\<lambda>es q. map fst (filter (\<lambda>(i, b). ex_overlap b q) es)),
     lib_uuid4 = (\<lambda>n. replicate 8 (char_of (97 + n)) @ ''-0000-4000-8000-000000000000'')\<rparr>"

definition ex_buildings_obj :: "cell list buildings_obj" where
  "ex_buildings_obj = \<lparr>removed_buildings = [], user_buildings = [], user_buildings_higher = [],
     removed_user_buildings = [], is3D = False\<rparr>"

section \<open>Connected regions of a mask\<close>

text \<open>
  The vocabulary for what the two library functions promise. \<open>cells_true\<close> are the cells
  of a boolean array that hold True. Two cells are 4-adjacent when they share an edge.
  \<open>steps S val\<close> relates 4-adjacent cells of \<open>S\<close> with the same value, and the
  \<open>regions\<close> are the sets of cells reachable from a cell of \<open>S\<close> by such steps: the
  maximal 4-connected regions of equal value. \<open>regions4 S\<close> are the maximal 4-connected
  regions of \<open>S\<close> itself.
\<close>

definition cells_true :: "bool ndarray \<Rightarrow> cell set" where
  "cells_true m = {(r, c). r < length m \<and> c < length (m ! r) \<and> m ! r ! c}"

definition adj4 :: "cell \<Rightarrow> cell \<Rightarrow> bool" where
  "adj4 p q =
     ((fst p = fst q \<and> (snd p = Suc (snd q) \<or> snd q = Suc (snd p))) \<or>
      (snd p = snd q \<and> (fst p = Suc (fst q) \<or> fst q = Suc (fst p))))"

definition steps :: "cell set \<Rightarrow> (cell \<Rightarrow> 'v) \<Rightarrow> (cell \<times> cell) set" where
  "steps S val = {(p, q). p \<in> S \<and> q \<in> S \<and> adj4 p q \<and> val p = val q}"

definition regions :: "cell set \<Rightarrow> (cell \<Rightarrow> 'v) \<Rightarrow> cell set set" where
  "regions S val = (\<lambda>p. (steps S val)\<^sup>* `` {p}) ` S"

definition regions4 :: "cell set \<Rightarrow> cell set set" where
  "regions4 S = regions S (\<lambda>_. ())"

text \<open>
  What is used of \<open>scipy.ndimage.label\<close> with its default structure: the labels are
  positive exactly on the True cells, and 4-adjacent True cells get the same label.
\<close>

definition label_respects4 :: "bool ndarray \<Rightarrow> nat ndarray \<Rightarrow> bool" where
  "label_respects4 m lab =
     (cells_true (positive lab) = cells_true m \<and>
      (\<forall>p\<in>cells_true m. \<forall>q\<in>cells_true m. adj4 p q \<longrightarrow> cell_at lab p = cell_at lab q))"

text \<open>
  What is used of \<open>rasterio.features.shapes\<close> with its default connectivity 4: it yields
  one polygon for each maximal 4-connected region of equal pixel value among the cells of
  the mask. \<open>pixels\<close> gives the cells that a polygon covers under the transform.
\<close>

definition shapes_are_regions ::
  "('t \<Rightarrow> 'g \<Rightarrow> cell set) \<Rightarrow> 8 word ndarray \<Rightarrow> bool ndarray \<Rightarrow> 't \<Rightarrow> ('g \<times> 8 word) list \<Rightarrow> bool"
  where
  "shapes_are_regions pixels img msk tr shps =
     (distinct (map (\<lambda>(g, v). pixels tr g) shps) \<and>
      set (map (\<lambda>(g, v). pixels tr g) shps) = regions (cells_true msk) (cell_at img))"

text \<open>The cells that a building blob covers, and the cells of an example geometry.\<close>

definition blob_pixels :: "('t \<Rightarrow> 'g \<Rightarrow> cell set) \<Rightarrow> 't \<Rightarrow> 'g building \<Rightarrow> cell set" where
  "blob_pixels pixels tr b =
     (case bld_geometry b of GeoJSON g \<Rightarrow> pixels tr g | Malformed \<Rightarrow> {})"

definition ex_pixels :: "unit \<Rightarrow> cell list \<Rightarrow> cell set" where
  "ex_pixels t g = set g"

section \<open>Array lemmas\<close>

lemma rect_mk_array: "rect h w (mk_array (h, w) f)"
  by (simp add: rect_def mk_array_def list_all_iff)

lemma at_mk_array: "r < h \<Longrightarrow> c < w \<Longrightarrow> cell_at (mk_array (h, w) f) (r, c) = f (r, c)"
  by (simp add: cell_at_def mk_array_def)

lemma rect_fill: "rect h w a \<Longrightarrow> rect h w (fill a v)"
  by (simp add: rect_def fill_def list_all_iff)

lemma at_fill: "rect h w a \<Longrightarrow> r < h \<Longrightarrow> c < w \<Longrightarrow> cell_at (fill a v) (r, c) = v"
  by (simp add: rect_def fill_def cell_at_def list_all_iff)

lemma np_shape_rect: "rect h w a \<Longrightarrow> 0 < h \<Longrightarrow> np_shape a = (h, w)"
  by (cases a) (simp_all add: rect_def np_shape_def)

lemma rect_np_where: "rect h w m \<Longrightarrow> rect h w a \<Longrightarrow> rect h w (np_where m a v)"
  by (auto simp: rect_def np_where_def list_all_iff dest!: set_zip_leftD set_zip_rightD
      elim!: in_set_zipE)

lemma at_np_where:
  "rect h w m \<Longrightarrow> rect h w a \<Longrightarrow> r < h \<Longrightarrow> c < w \<Longrightarrow>
   cell_at (np_where m a v) (r, c) = (if cell_at m (r, c) then cell_at a (r, c) else v)"
  by (simp add: rect_def np_where_def cell_at_def list_all_iff)

lemma mk_array_np_shape: "rect h w a \<Longrightarrow> mk_array (np_shape a) f = mk_array (h, w) f"
  by (cases a) (simp_all add: rect_def np_shape_def mk_array_def)

section \<open>The feature loop, cell by cell\<close>

lemma rasterize_features_cells:
  "rasterize_features burn t fs a = Inr a' \<Longrightarrow> rect h w a \<Longrightarrow>
   rect h w a' \<and>
   (\<forall>r<h. \<forall>c<w. cell_at a' (r, c) = paint burn t fs (r, c) (cell_at a (r, c)))"
proof (induction fs arbitrary: a)
  case Nil
  then show ?case by simp
next
  case (Cons f fs)
  from Cons.prems(1) obtain geom where g: "geometry f = GeoJSON geom"
    by (cases "geometry f") (simp_all add: shape_def)
  show ?case
  proof (cases "landuse f")
    case None
    with Cons.prems g have "rasterize_features burn t fs a = Inr a'"
      by (simp add: shape_def)
    from Cons.IH [OF this Cons.prems(2)] None show ?thesis
      by (simp add: covers_def)
  next
    case (Some lu)
    with Cons.prems(1) g obtain inside where b: "burn [geom] t = Some inside"
      by (cases "burn [geom] t") (simp_all add: shape_def geometry_mask_def)
    define m where "m = mk_array (h, w) (\<lambda>rc. \<not> inside rc)"
    have gm: "geometry_mask burn [geom] t (np_shape a) = Inr m"
      using b Cons.prems(2) by (simp add: geometry_mask_def m_def mk_array_np_shape)
    have rm: "rect h w m" by (simp add: m_def rect_mk_array)
    have run: "rasterize_features burn t fs (np_where m a lu) = Inr a'"
      using Cons.prems(1) g Some gm by (simp add: shape_def)
    have rn: "rect h w (np_where m a lu)"
      using rm Cons.prems(2) by (rule rect_np_where)
    have cov: "covers burn t f rc = inside rc" for rc
      using g Some b by (simp add: covers_def)
    have step: "cell_at (np_where m a lu) (r, c) =
        (if covers burn t f (r, c) then lu else cell_at a (r, c))" if "r < h" "c < w" for r c
      using that rm Cons.prems(2) by (simp add: at_np_where cov m_def at_mk_array)
    from Cons.IH [OF run rn] step Some show ?thesis
      by simp
  qed
qed

lemma paint_append:
  "paint burn t (xs @ ys) rc v = paint burn t ys rc (paint burn t xs rc v)"
  by (induction xs arbitrary: v) simp_all

lemma paint_not_covered:
  "\<forall>f\<in>set fs. \<not> covers burn t f rc \<Longrightarrow> paint burn t fs rc v = v"
  by (induction fs arbitrary: v) simp_all

lemma paint_last:
  "covers burn t f rc \<Longrightarrow> landuse f = Some k \<Longrightarrow> \<forall>f'\<in>set fs2. \<not> covers burn t f' rc \<Longrightarrow>
   paint burn t (fs1 @ f # fs2) rc v = k"
  by (simp add: paint_append paint_not_covered)

section \<open>The composition, cell by cell\<close>

lemma rasterize_water_cells:
  assumes "rasterize_water burn t s arr = Inr (arr', s')"
    and "rect h w arr" and "water_mask s = None"
  shows "rect h w arr' \<and>
    (\<forall>r<h. \<forall>c<w. cell_at arr' (r, c) =
           (if layer_covered (water_mask s') (r, c) then 7 else cell_at arr (r, c))) \<and>
    s' = s\<lparr>water_mask := water_mask s', stdout := stdout s'\<rparr> \<and>
    (water_mask s' = None) = (water s = []) \<and>
    water_mask s' = layer_mask burn t (h, w) (map wat_geometry (water s))"
proof -
  from assms(1) obtain gs where gs: "shapes_of (map wat_geometry (water s)) = Inr gs"
    by (cases "shapes_of (map wat_geometry (water s))") (simp_all add: rasterize_water_def)
  have ne: "(gs = []) = (water s = [])"
    using gs by (cases "water s") (auto split: sum.splits)
  show ?thesis
  proof (cases "gs = []")
    case True
    with assms gs have eq: "arr' = arr" "s' = s\<lparr>stdout := stdout s @
        [''No valid water geometries found. Skipping water rasterization.'']\<rparr>"
      by (simp_all add: rasterize_water_def)
    show ?thesis
      using eq assms(2,3) True ne gs by (simp add: layer_covered_def layer_mask_def)
  next
    case False
    with assms(1) gs obtain inside where b: "burn gs t = Some inside"
      by (cases "burn gs t") (simp_all add: rasterize_water_def geometry_mask_def)
    define m where "m = mk_array (h, w) (\<lambda>rc. \<not> inside rc)"
    have gm: "geometry_mask burn gs t (np_shape arr) = Inr m"
      using b assms(2) by (simp add: geometry_mask_def m_def mk_array_np_shape)
    have gm': "geometry_mask burn gs t (h, w) = Inr m"
      using b by (simp add: geometry_mask_def m_def)
    have rm: "rect h w m" by (simp add: m_def rect_mk_array)
    from assms(1) gs False gm have eq: "arr' = np_where m arr 7" "s' = s\<lparr>water_mask := Some m\<rparr>"
      by (simp_all add: rasterize_water_def)
    show ?thesis
      using eq rm assms(2) False ne gs gm'
      by (simp add: layer_covered_def at_np_where rect_np_where layer_mask_def)
  qed
qed

lemma rasterize_buildings_cells:
  assumes "rasterize_buildings burn t s r arr = Inr (r', s')"
    and "rect h w arr" and "building_mask s = None"
    and "r < length (store s)" and "store s ! r = arr"
  shows "r' < length (store s') \<and> rect h w (store s' ! r') \<and>
    (\<forall>ro<h. \<forall>c<w. cell_at (store s' ! r') (ro, c) =
           (if layer_covered (building_mask s') (ro, c) then 2 else cell_at arr (ro, c))) \<and>
    s' = s\<lparr>building_mask := building_mask s', store := store s', stdout := stdout s'\<rparr> \<and>
    (building_mask s' = None) = (buildings s = []) \<and>
    store s' ! r = arr \<and>
    building_mask s' = layer_mask burn t (h, w) (map bld_geometry (buildings s))"
proof -
  from assms(1) obtain gs where gs: "shapes_of (map bld_geometry (buildings s)) = Inr gs"
    by (cases "shapes_of (map bld_geometry (buildings s))")
      (simp_all add: rasterize_buildings_def)
  have ne: "(gs = []) = (buildings s = [])"
    using gs by (cases "buildings s") (auto split: sum.splits)
  show ?thesis
  proof (cases "gs = []")
    case True
    with assms gs have eq: "r' = r" "s' = s\<lparr>stdout := stdout s @
        [''No valid building geometries found. Skipping building rasterization.'']\<rparr>"
      by (simp_all add: rasterize_buildings_def)
    show ?thesis
      using eq assms(2,3,4,5) True ne gs by (simp add: layer_covered_def layer_mask_def)
  next
    case False
    with assms(1) gs obtain inside where b: "burn gs t = Some inside"
      by (cases "burn gs t") (simp_all add: rasterize_buildings_def geometry_mask_def)
    define m where "m = mk_array (h, w) (\<lambda>rc. \<not> inside rc)"
    have gm: "geometry_mask burn gs t (np_shape arr) = Inr m"
      using b assms(2) by (simp add: geometry_mask_def m_def mk_array_np_shape)
    have gm': "geometry_mask burn gs t (h, w) = Inr m"
      using b by (simp add: geometry_mask_def m_def)
    have rm: "rect h w m" by (simp add: m_def rect_mk_array)
    from assms(1) gs False gm have eq: "r' = length (store s)"
      "s' = s\<lparr>building_mask := Some m, store := store s @ [np_where m arr 2]\<rparr>"
      by (simp_all add: rasterize_buildings_def alloc_def)
    show ?thesis
      using eq rm assms(2,4,5) False ne gs gm'
      by (simp add: layer_covered_def at_np_where rect_np_where nth_append layer_mask_def)
  qed
qed

lemma convert_to_raster_cells:
  assumes run: "convert_to_raster burn s = Inr (r, s')"
    and wm: "water_mask s = None" and bm: "building_mask s = None"
  defines "h \<equiv> ds_height (dtm_dataset s)" and "w \<equiv> ds_width (dtm_dataset s)"
    and "t \<equiv> ds_transform (dtm_dataset s)"
  shows "r < length (store s') \<and> rect h w (store s' ! r) \<and>
    (\<forall>ro<h. \<forall>c<w. cell_at (store s' ! r) (ro, c) =
       (if layer_covered (building_mask s') (ro, c) then 2
        else if layer_covered (water_mask s') (ro, c) then 7
        else paint burn t (roads s) (ro, c) (paint burn t (terrains s) (ro, c) NODATA))) \<and>
    water_mask s' = layer_mask burn t (h, w) (map wat_geometry (water s)) \<and>
    building_mask s' = layer_mask burn t (h, w) (map bld_geometry (buildings s))"
proof -
  define arr1 where "arr1 = fill (read1 (dtm_dataset s)) NODATA"
  define s1 where "s1 = s\<lparr>transform := Some t\<rparr>"
  have r1: "rect h w arr1"
    by (simp add: arr1_def read1_def h_def w_def rect_fill rect_mk_array)
  have c1: "\<forall>ro<h. \<forall>c<w. cell_at arr1 (ro, c) = NODATA"
    using rect_mk_array [of h w "ds_band (dtm_dataset s)"]
    by (simp add: arr1_def read1_def h_def w_def at_fill)
  from run obtain arr2 where a2: "rasterize_features burn t (terrains s) arr1 = Inr arr2"
    by (cases "rasterize_features burn t (terrains s) arr1")
      (simp_all add: convert_to_raster_def Let_def arr1_def t_def)
  from run a2 obtain arr3 where a3: "rasterize_features burn t (roads s) arr2 = Inr arr3"
    by (cases "rasterize_features burn t (roads s) arr2")
      (simp_all add: convert_to_raster_def Let_def arr1_def t_def)
  from run a2 a3 obtain arr4 s2 where a4: "rasterize_water burn t s1 arr3 = Inr (arr4, s2)"
    by (cases "rasterize_water burn t s1 arr3")
      (auto simp: convert_to_raster_def Let_def arr1_def t_def s1_def)
  define s3 where "s3 = s2\<lparr>landcover_withoutbuild := Some (length (store s2)),
    store := store s2 @ [arr4]\<rparr>"
  from run a2 a3 a4 have a5: "rasterize_buildings burn t s3 (length (store s2)) arr4 = Inr (r, s')"
    by (simp add: convert_to_raster_def Let_def arr1_def t_def s1_def s3_def alloc_def)
  note f2 = rasterize_features_cells [OF a2 r1]
  note f3 = rasterize_features_cells [OF a3 conjunct1 [OF f2]]
  have "water_mask s1 = None" using wm by (simp add: s1_def)
  note f4 = rasterize_water_cells [OF a4 conjunct1 [OF f3] this]
  from f4 have s2_eq: "s2 = s1\<lparr>water_mask := water_mask s2, stdout := stdout s2\<rparr>"
    by blast
  have b3: "building_mask s3 = None"
    by (subst s3_def, subst s2_eq) (simp add: s1_def bm)
  have bs3: "buildings s3 = buildings s"
    by (subst s3_def, subst s2_eq) (simp add: s1_def)
  have "length (store s2) < length (store s3)" "store s3 ! length (store s2) = arr4"
    by (simp_all add: s3_def)
  note f5 = rasterize_buildings_cells [OF a5 conjunct1 [OF f4] b3 this]
  from f5 have s'_eq:
    "s' = s3\<lparr>building_mask := building_mask s', store := store s', stdout := stdout s'\<rparr>"
    by blast
  have w': "water_mask s' = water_mask s2"
    by (subst s'_eq) (simp add: s3_def)
  have ws: "water s1 = water s" by (simp add: s1_def)
  have cells: "cell_at (store s' ! r) (ro, c) =
       (if layer_covered (building_mask s') (ro, c) then 2
        else if layer_covered (water_mask s') (ro, c) then 7
        else paint burn t (roads s) (ro, c) (paint burn t (terrains s) (ro, c) NODATA))"
    if "ro < h" "c < w" for ro c
    using that f2 f3 f4 f5 c1 w' by simp
  show ?thesis
    using f5 f4 cells w' ws bs3 by simp
qed

section \<open>The overwrite law\<close>

text \<open>
  Claim C1. The layers are rasterized in the order terrain, road, water, building, and a
  later layer overwrites: in the grid that \<open>convert_to_raster\<close> returns, a cell covered
  by the building mask holds 2; a cell covered by the water mask and not by the building
  mask holds 7; a cell covered by a road feature with a code, by no later such road
  feature, and by neither the water nor the building mask holds that road feature's code.
  Nothing is assumed about what the earlier layers (or the initial NODATA) had put there.
  The stored masks are the rasterizations of the layers' geometries.
\<close>

theorem overwrite_law:
  assumes "convert_to_raster burn s = Inr (r, s')"
    and "water_mask s = None" and "building_mask s = None"
    and "ro < ds_height (dtm_dataset s)" and "c < ds_width (dtm_dataset s)"
  shows
    "water_mask s' = layer_mask burn (ds_transform (dtm_dataset s))
        (ds_height (dtm_dataset s), ds_width (dtm_dataset s)) (map wat_geometry (water s)) \<and>
     building_mask s' = layer_mask burn (ds_transform (dtm_dataset s))
        (ds_height (dtm_dataset s), ds_width (dtm_dataset s)) (map bld_geometry (buildings s)) \<and>
     (layer_covered (building_mask s') (ro, c) \<longrightarrow> cell_at (store s' ! r) (ro, c) = 2) \<and>
     (layer_covered (water_mask s') (ro, c) \<and> \<not> layer_covered (building_mask s') (ro, c) \<longrightarrow>
        cell_at (store s' ! r) (ro, c) = 7) \<and>
     (\<forall>fs1 f fs2 k.
        roads s = fs1 @ f # fs2 \<and> landuse f = Some k \<and>
        covers burn (ds_transform (dtm_dataset s)) f (ro, c) \<and>
        (\<forall>f'\<in>set fs2. \<not> covers burn (ds_transform (dtm_dataset s)) f' (ro, c)) \<and>
        \<not> layer_covered (water_mask s') (ro, c) \<and>
        \<not> layer_covered (building_mask s') (ro, c) \<longrightarrow>
        cell_at (store s' ! r) (ro, c) = k)"
proof -
  note cells = convert_to_raster_cells [OF assms(1,2,3)]
  from cells assms(4,5) have out: "cell_at (store s' ! r) (ro, c) =
       (if layer_covered (building_mask s') (ro, c) then 2
        else if layer_covered (water_mask s') (ro, c) then 7
        else paint burn (ds_transform (dtm_dataset s)) (roads s) (ro, c)
          (paint burn (ds_transform (dtm_dataset s)) (terrains s) (ro, c) NODATA))"
    by blast
  have road: "cell_at (store s' ! r) (ro, c) = k"
    if "roads s = fs1 @ f # fs2" "landuse f = Some k"
      "covers burn (ds_transform (dtm_dataset s)) f (ro, c)"
      "\<forall>f'\<in>set fs2. \<not> covers burn (ds_transform (dtm_dataset s)) f' (ro, c)"
      "\<not> layer_covered (water_mask s') (ro, c)" "\<not> layer_covered (building_mask s') (ro, c)"
    for fs1 f fs2 k
    using out that by (simp add: paint_last)
  from cells have masks:
    "water_mask s' = layer_mask burn (ds_transform (dtm_dataset s))
        (ds_height (dtm_dataset s), ds_width (dtm_dataset s)) (map wat_geometry (water s))"
    "building_mask s' = layer_mask burn (ds_transform (dtm_dataset s))
        (ds_height (dtm_dataset s), ds_width (dtm_dataset s)) (map bld_geometry (buildings s))"
    by blast+
  show ?thesis
    using out road masks by (intro conjI allI impI; (elim conjE)?) simp_all
qed

theorem overwrite_law_witness:
  "\<exists>r s'. convert_to_raster ex_burn (ex_layers [ex_terrain] [ex_road] [ex_water] [ex_building])
       = Inr (r, s') \<and>
     cell_at (store s' ! r) (0, 0) = 2 \<and> cell_at (store s' ! r) (0, 1) = 7 \<and>
     cell_at (store s' ! r) (0, 2) = 1"
proof -
  define s where "s = ex_layers [ex_terrain] [ex_road] [ex_water] [ex_building]"
  have "isl (convert_to_raster ex_burn s) = False"
    unfolding s_def by code_simp
  then obtain r s' where run: "convert_to_raster ex_burn s = Inr (r, s')"
    by (cases "convert_to_raster ex_burn s") auto
  have pre: "water_mask s = None" "building_mask s = None"
    "ds_height (dtm_dataset s) = 1" "ds_width (dtm_dataset s) = 4" "roads s = [] @ ex_road # []"
    "water s = [ex_water]" "buildings s = [ex_building]"
    by (simp_all add: s_def ex_layers_def fresh_landcover_def ex_dataset_def)
  have wmask: "layer_mask ex_burn () (1, 4) (map wat_geometry [ex_water]) = Some [[False, False, True, True]]"
    by code_simp
  have bmask: "layer_mask ex_burn () (1, 4) (map bld_geometry [ex_building]) = Some [[False, True, True, True]]"
    by code_simp
  have cov: "covers ex_burn () ex_road (0, 2)" "landuse ex_road = Some 1"
    by code_simp+
  have "cell_at (store s' ! r) (0, 0) = 2"
    using overwrite_law [OF run pre(1,2), of 0 0] pre wmask bmask
    by (simp add: layer_covered_def cell_at_def)
  moreover have "cell_at (store s' ! r) (0, 1) = 7"
    using overwrite_law [OF run pre(1,2), of 0 1] pre wmask bmask
    by (simp add: layer_covered_def cell_at_def)
  moreover have "cell_at (store s' ! r) (0, 2) = 1"
  proof -
    have lt: "0 < ds_height (dtm_dataset s)" "2 < ds_width (dtm_dataset s)"
      by (simp_all add: pre)
    note law = overwrite_law [OF run pre(1,2) lt]
    have wm': "water_mask s' = Some [[False, False, True, True]]"
      and bm': "building_mask s' = Some [[False, True, True, True]]"
      using law wmask bmask pre by simp_all
    have nc: "\<not> layer_covered (water_mask s') (0, 2)" "\<not> layer_covered (building_mask s') (0, 2)"
      by (simp_all add: wm' bm' layer_covered_def cell_at_def)
    have tr: "ds_transform (dtm_dataset s) = ()"
      by simp
    from law have "roads s = [] @ ex_road # [] \<and> landuse ex_road = Some 1 \<and>
        covers ex_burn (ds_transform (dtm_dataset s)) ex_road (0, 2) \<and>
        (\<forall>f'\<in>set []. \<not> covers ex_burn (ds_transform (dtm_dataset s)) f' (0, 2)) \<and>
        \<not> layer_covered (water_mask s') (0, 2) \<and>
        \<not> layer_covered (building_mask s') (0, 2) \<longrightarrow>
        cell_at (store s' ! r) (0, 2) = 1"
      by blast
    with pre(5) cov nc tr show ?thesis
      by simp
  qed
  ultimately show ?thesis
    using run unfolding s_def by blast
qed

section \<open>Features of one layer: order and overlap\<close>

lemma paint_disjoint:
  "length (filter (\<lambda>f. covers burn t f rc) fs) \<le> 1 \<Longrightarrow> f \<in> set fs \<Longrightarrow> covers burn t f rc \<Longrightarrow>
   landuse f = Some k \<Longrightarrow> paint burn t fs rc v = k"
proof (induction fs arbitrary: v)
  case Nil
  then show ?case by simp
next
  case (Cons x xs)
  show ?case
  proof (cases "covers burn t x rc")
    case True
    with Cons.prems(1) have none: "filter (\<lambda>f. covers burn t f rc) xs = []"
      by simp
    then have nc: "\<forall>f'\<in>set xs. \<not> covers burn t f' rc"
      by (simp add: filter_empty_conv)
    with Cons.prems(2,3) have "f = x" by auto
    with True Cons.prems(4) nc show ?thesis
      by (simp add: paint_not_covered)
  next
    case False
    with Cons.prems have "f \<in> set xs" "length (filter (\<lambda>f. covers burn t f rc) xs) \<le> 1"
      by auto
    from Cons.IH [OF this(2,1) Cons.prems(3,4)] False show ?thesis
      by simp
  qed
qed

lemma filter_length_mset:
  "mset xs = mset ys \<Longrightarrow> length (filter P xs) = length (filter P ys)"
proof -
  assume "mset xs = mset ys"
  then have "mset (filter P xs) = mset (filter P ys)"
    by (simp only: mset_filter)
  then show ?thesis
    by (rule mset_eq_length)
qed

lemma paint_permute:
  assumes "mset fs' = mset fs" and "length (filter (\<lambda>f. covers burn t f rc) fs) \<le> 1"
  shows "paint burn t fs' rc v = paint burn t fs rc v"
proof (cases "\<exists>f\<in>set fs. covers burn t f rc")
  case True
  then obtain f where f: "f \<in> set fs" "covers burn t f rc" by blast
  then obtain k where k: "landuse f = Some k"
    by (cases "landuse f") (simp_all add: covers_def)
  have f': "f \<in> set fs'" using f(1) assms(1) by (metis mset_eq_setD)
  have d': "length (filter (\<lambda>f. covers burn t f rc) fs') \<le> 1"
    using assms by (simp add: filter_length_mset [OF assms(1)])
  show ?thesis
    using paint_disjoint [OF assms(2) f k] paint_disjoint [OF d' f' f(2) k] by simp
next
  case False
  moreover from False assms(1) have "\<forall>f\<in>set fs'. \<not> covers burn t f rc"
    by (metis mset_eq_setD)
  ultimately show ?thesis
    by (simp add: paint_not_covered)
qed

text \<open>
  Claim C2. Within one layer (the terrain loop and the road loop are the same code), when
  two features with different codes cover a cell and no feature listed after the later
  one covers it, the cell holds the code of the later one. Where the features of the layer
  are disjoint (at most one covers the cell), the cell holds the code of the feature that
  covers it, and every reordering of the list gives the same value.
\<close>

theorem same_layer_order:
  assumes "rasterize_features burn t fs a = Inr a'"
    and "rect h w a" and "ro < h" and "c < w"
  shows
    "(\<forall>xs f1 ys f2 zs k1 k2.
        fs = xs @ f1 # ys @ f2 # zs \<and> landuse f1 = Some k1 \<and> landuse f2 = Some k2 \<and> k1 \<noteq> k2 \<and>
        covers burn t f1 (ro, c) \<and> covers burn t f2 (ro, c) \<and>
        (\<forall>f'\<in>set zs. \<not> covers burn t f' (ro, c)) \<longrightarrow>
        cell_at a' (ro, c) = k2) \<and>
     (disjoint_at burn t fs (ro, c) \<longrightarrow>
        (\<forall>f k. f \<in> set fs \<and> landuse f = Some k \<and> covers burn t f (ro, c) \<longrightarrow>
           cell_at a' (ro, c) = k) \<and>
        (\<forall>fs' a''. mset fs' = mset fs \<and> rasterize_features burn t fs' a = Inr a'' \<longrightarrow>
           cell_at a'' (ro, c) = cell_at a' (ro, c)))"
proof -
  from rasterize_features_cells [OF assms(1,2)] assms(3,4)
  have out: "cell_at a' (ro, c) = paint burn t fs (ro, c) (cell_at a (ro, c))"
    by blast
  have later: "cell_at a' (ro, c) = k2"
    if "fs = xs @ f1 # ys @ f2 # zs" "landuse f2 = Some k2" "covers burn t f2 (ro, c)"
      "\<forall>f'\<in>set zs. \<not> covers burn t f' (ro, c)" for xs f1 ys f2 zs k2
  proof -
    from that(1) have "fs = (xs @ f1 # ys) @ f2 # zs" by simp
    with out that(2,3,4) show ?thesis
      by (simp only: paint_last)
  qed
  have own: "cell_at a' (ro, c) = k"
    if "disjoint_at burn t fs (ro, c)" "f \<in> set fs" "landuse f = Some k" "covers burn t f (ro, c)"
    for f k
  proof -
    from that(1) have "length (filter (\<lambda>f. covers burn t f (ro, c)) fs) \<le> 1"
      by (simp add: disjoint_at_def)
    from paint_disjoint [OF this that(2,4,3)] out show ?thesis
      by simp
  qed
  have perm: "cell_at a'' (ro, c) = cell_at a' (ro, c)"
    if "disjoint_at burn t fs (ro, c)" "mset fs' = mset fs"
      "rasterize_features burn t fs' a = Inr a''" for fs' a''
  proof -
    from rasterize_features_cells [OF that(3) assms(2)] assms(3,4)
    have "cell_at a'' (ro, c) = paint burn t fs' (ro, c) (cell_at a (ro, c))"
      by blast
    moreover from that(1) have "length (filter (\<lambda>f. covers burn t f (ro, c)) fs) \<le> 1"
      by (simp add: disjoint_at_def)
    note paint_permute [OF that(2) this, of "cell_at a (ro, c)"]
    ultimately show ?thesis
      using out by simp
  qed
  show ?thesis
  proof (intro conjI allI impI, goal_cases)
    case (1 xs f1 ys f2 zs k1 k2)
    then show ?case
      using later [of xs f1 ys f2 zs k2] by (elim conjE) simp
  next
    case (2 f k)
    then show ?case
      using own [of f k] by (elim conjE) simp
  next
    case (3 fs' a'')
    then show ?case
      using perm [of fs' a''] by (elim conjE) simp
  qed
qed

theorem same_layer_order_witness:
  "\<exists>a' a''. rasterize_features ex_burn () [ex_f1, ex_f2] [[- 9999, - 9999, - 9999]] = Inr a' \<and>
     rasterize_features ex_burn () [ex_f2, ex_f1] [[- 9999, - 9999, - 9999]] = Inr a'' \<and>
     cell_at a' (0, 1) = 6 \<and> cell_at a' (0, 0) = 5 \<and> cell_at a'' (0, 0) = 5"
proof -
  define a :: "int ndarray" where "a = [[- 9999, - 9999, - 9999]]"
  have "isl (rasterize_features ex_burn () [ex_f1, ex_f2] a) = False"
    "isl (rasterize_features ex_burn () [ex_f2, ex_f1] a) = False"
    unfolding a_def by code_simp+
  then obtain a' a'' where run: "rasterize_features ex_burn () [ex_f1, ex_f2] a = Inr a'"
    and run': "rasterize_features ex_burn () [ex_f2, ex_f1] a = Inr a''"
    by (metis isl_def sum.collapse(2))
  have ra: "rect 1 3 a" by (simp add: a_def rect_def)
  have cov: "covers ex_burn () ex_f1 (0, 1)" "covers ex_burn () ex_f2 (0, 1)"
    "covers ex_burn () ex_f1 (0, 0)" "landuse ex_f1 = Some 5" "landuse ex_f2 = Some 6"
    "disjoint_at ex_burn () [ex_f1, ex_f2] (0, 0)"
    by code_simp+
  have m: "mset [ex_f2, ex_f1] = mset [ex_f1, ex_f2]"
    by simp
  have lt: "(0::nat) < 1" "(1::nat) < 3" "(0::nat) < 3" by simp_all
  note law1 = same_layer_order [OF run ra lt(1,2)]
  note law0 = same_layer_order [OF run ra lt(1,3)]
  from law1 have "[ex_f1, ex_f2] = [] @ ex_f1 # [] @ ex_f2 # [] \<and>
      landuse ex_f1 = Some 5 \<and> landuse ex_f2 = Some 6 \<and> (5::int) \<noteq> 6 \<and>
      covers ex_burn () ex_f1 (0, 1) \<and> covers ex_burn () ex_f2 (0, 1) \<and>
      (\<forall>f'\<in>set []. \<not> covers ex_burn () f' (0, 1)) \<longrightarrow> cell_at a' (0, 1) = 6"
    by blast
  with cov have c1: "cell_at a' (0, 1) = 6" by simp
  from law0 cov(6) have d: "(\<forall>f k. f \<in> set [ex_f1, ex_f2] \<and> landuse f = Some k \<and>
        covers ex_burn () f (0, 0) \<longrightarrow> cell_at a' (0, 0) = k) \<and>
     (\<forall>fs' a''. mset fs' = mset [ex_f1, ex_f2] \<and>
        rasterize_features ex_burn () fs' a = Inr a'' \<longrightarrow> cell_at a'' (0, 0) = cell_at a' (0, 0))"
    by blast
  from d have "ex_f1 \<in> set [ex_f1, ex_f2] \<and> landuse ex_f1 = Some 5 \<and>
      covers ex_burn () ex_f1 (0, 0) \<longrightarrow> cell_at a' (0, 0) = 5"
    by (elim conjE allE)
  with cov have c0: "cell_at a' (0, 0) = 5" by simp
  from d have "mset [ex_f2, ex_f1] = mset [ex_f1, ex_f2] \<and>
      rasterize_features ex_burn () [ex_f2, ex_f1] a = Inr a'' \<longrightarrow>
      cell_at a'' (0, 0) = cell_at a' (0, 0)"
    by (elim conjE allE)
  with m run' have "cell_at a'' (0, 0) = cell_at a' (0, 0)" by (simp only: simp_thms)
  with c0 have c0': "cell_at a'' (0, 0) = 5" by simp
  from run run' c1 c0 c0'
  have "rasterize_features ex_burn () [ex_f1, ex_f2] a = Inr a' \<and>
     rasterize_features ex_burn () [ex_f2, ex_f1] a = Inr a'' \<and>
     cell_at a' (0, 1) = 6 \<and> cell_at a' (0, 0) = 5 \<and> cell_at a'' (0, 0) = 5"
    by (simp only: simp_thms)
  then show ?thesis
    unfolding a_def by (intro exI)
qed

section \<open>Composing a single layer\<close>

lemma layer_mask_empty: "layer_mask burn t shp [] = None"
  by (simp add: layer_mask_def)

text \<open>
  Claim C3. When only one layer has features, the grid that \<open>convert_to_raster\<close> returns
  holds that layer's code in the cells the layer covers and NODATA = -9999 in every other
  cell: the grid is filled with -9999 before any layer is rasterized. For the terrain
  layer and the road layer the code is the one of the last feature with a code that covers
  the cell; for the water layer it is 7 and for the building layer 2, on the cells of the
  layer's mask.
\<close>

theorem single_layer_compose:
  assumes "convert_to_raster burn s = Inr (r, s')"
    and "water_mask s = None" and "building_mask s = None"
    and "ro < ds_height (dtm_dataset s)" and "c < ds_width (dtm_dataset s)"
  shows
    "NODATA = - 9999 \<and>
     (roads s = [] \<and> water s = [] \<and> buildings s = [] \<longrightarrow>
        ((\<forall>f\<in>set (terrains s). \<not> covers burn (ds_transform (dtm_dataset s)) f (ro, c)) \<longrightarrow>
           cell_at (store s' ! r) (ro, c) = NODATA) \<and>
        (\<forall>fs1 f fs2 k.
           terrains s = fs1 @ f # fs2 \<and> landuse f = Some k \<and>
           covers burn (ds_transform (dtm_dataset s)) f (ro, c) \<and>
           (\<forall>f'\<in>set fs2. \<not> covers burn (ds_transform (dtm_dataset s)) f' (ro, c)) \<longrightarrow>
           cell_at (store s' ! r) (ro, c) = k)) \<and>
     (terrains s = [] \<and> water s = [] \<and> buildings s = [] \<longrightarrow>
        ((\<forall>f\<in>set (roads s). \<not> covers burn (ds_transform (dtm_dataset s)) f (ro, c)) \<longrightarrow>
           cell_at (store s' ! r) (ro, c) = NODATA) \<and>
        (\<forall>fs1 f fs2 k.
           roads s = fs1 @ f # fs2 \<and> landuse f = Some k \<and>
           covers burn (ds_transform (dtm_dataset s)) f (ro, c) \<and>
           (\<forall>f'\<in>set fs2. \<not> covers burn (ds_transform (dtm_dataset s)) f' (ro, c)) \<longrightarrow>
           cell_at (store s' ! r) (ro, c) = k)) \<and>
     (terrains s = [] \<and> roads s = [] \<and> buildings s = [] \<longrightarrow>
        cell_at (store s' ! r) (ro, c) =
          (if layer_covered (layer_mask burn (ds_transform (dtm_dataset s))
                (ds_height (dtm_dataset s), ds_width (dtm_dataset s))
                (map wat_geometry (water s))) (ro, c)
           then 7 else NODATA)) \<and>
     (terrains s = [] \<and> roads s = [] \<and> water s = [] \<longrightarrow>
        cell_at (store s' ! r) (ro, c) =
          (if layer_covered (layer_mask burn (ds_transform (dtm_dataset s))
                (ds_height (dtm_dataset s), ds_width (dtm_dataset s))
                (map bld_geometry (buildings s))) (ro, c)
           then 2 else NODATA))"
proof -
  note cells = convert_to_raster_cells [OF assms(1,2,3)]
  from cells assms(4,5) have out: "cell_at (store s' ! r) (ro, c) =
       (if layer_covered (building_mask s') (ro, c) then 2
        else if layer_covered (water_mask s') (ro, c) then 7
        else paint burn (ds_transform (dtm_dataset s)) (roads s) (ro, c)
          (paint burn (ds_transform (dtm_dataset s)) (terrains s) (ro, c) NODATA))"
    by blast
  from cells have wm: "water_mask s' = layer_mask burn (ds_transform (dtm_dataset s))
        (ds_height (dtm_dataset s), ds_width (dtm_dataset s)) (map wat_geometry (water s))"
    and bm: "building_mask s' = layer_mask burn (ds_transform (dtm_dataset s))
        (ds_height (dtm_dataset s), ds_width (dtm_dataset s)) (map bld_geometry (buildings s))"
    by blast+
  have nw: "water s = [] \<Longrightarrow> \<not> layer_covered (water_mask s') (ro, c)"
    and nb: "buildings s = [] \<Longrightarrow> \<not> layer_covered (building_mask s') (ro, c)"
    by (simp_all add: wm bm layer_mask_empty layer_covered_def)
  have terrain_only: "cell_at (store s' ! r) (ro, c) =
      paint burn (ds_transform (dtm_dataset s)) (terrains s) (ro, c) NODATA"
    if "roads s = []" "water s = []" "buildings s = []"
    using out nw nb that by simp
  have road_only: "cell_at (store s' ! r) (ro, c) =
      paint burn (ds_transform (dtm_dataset s)) (roads s) (ro, c) NODATA"
    if "terrains s = []" "water s = []" "buildings s = []"
    using out nw nb that by simp
  have water_only: "cell_at (store s' ! r) (ro, c) =
      (if layer_covered (water_mask s') (ro, c) then 7 else NODATA)"
    if "terrains s = []" "roads s = []" "buildings s = []"
    using out nb that by simp
  have building_only: "cell_at (store s' ! r) (ro, c) =
      (if layer_covered (building_mask s') (ro, c) then 2 else NODATA)"
    if "terrains s = []" "roads s = []" "water s = []"
    using out nw that by simp
  show ?thesis
  proof (intro conjI allI impI, goal_cases)
    case 1
    show ?case by (simp add: NODATA_def)
  next
    case 2
    then show ?case
      using terrain_only by (simp add: paint_not_covered)
  next
    case (3 fs1 f fs2 k)
    then show ?case
      using terrain_only by (elim conjE) (simp add: paint_last)
  next
    case 4
    then show ?case
      using road_only by (simp add: paint_not_covered)
  next
    case (5 fs1 f fs2 k)
    then show ?case
      using road_only by (elim conjE) (simp add: paint_last)
  next
    case 6
    then show ?case
      using water_only wm by simp
  next
    case 7
    then show ?case
      using building_only bm by simp
  qed
qed


theorem single_layer_compose_witness:
  "\<exists>r s'. convert_to_raster ex_burn (ex_layers [] [ex_road] [] []) = Inr (r, s') \<and>
     cell_at (store s' ! r) (0, 2) = 1 \<and> cell_at (store s' ! r) (0, 3) = - 9999"
proof -
  define s where "s = ex_layers [] [ex_road] [] []"
  have "isl (convert_to_raster ex_burn s) = False"
    unfolding s_def by code_simp
  then obtain r s' where run: "convert_to_raster ex_burn s = Inr (r, s')"
    by (cases "convert_to_raster ex_burn s") auto
  have pre: "water_mask s = None" "building_mask s = None"
    "ds_height (dtm_dataset s) = 1" "ds_width (dtm_dataset s) = 4"
    "terrains s = []" "roads s = [] @ ex_road # []" "water s = []" "buildings s = []"
    by (simp_all add: s_def ex_layers_def fresh_landcover_def ex_dataset_def)
  have only: "terrains s = [] \<and> water s = [] \<and> buildings s = []"
    using pre by simp
  have lt: "0 < ds_height (dtm_dataset s)" "2 < ds_width (dtm_dataset s)"
    "3 < ds_width (dtm_dataset s)"
    by (simp_all add: pre)
  have cov: "covers ex_burn () ex_road (0, 2)" "landuse ex_road = Some 1"
    "\<not> covers ex_burn () ex_road (0, 3)"
    by code_simp+
  have tr: "ds_transform (dtm_dataset s) = ()"
    by simp
  note law2 = single_layer_compose [OF run pre(1,2) lt(1,2),
      THEN conjunct2, THEN conjunct2, THEN conjunct1, THEN mp, OF only]
  note law3 = single_layer_compose [OF run pre(1,2) lt(1,3),
      THEN conjunct2, THEN conjunct2, THEN conjunct1, THEN mp, OF only]
  from law2 [THEN conjunct2, rule_format, of "[]" ex_road "[]" 1] pre(6) cov tr
  have c2: "cell_at (store s' ! r) (0, 2) = 1"
    by simp
  from law3 [THEN conjunct1] pre(6) cov tr have c3: "cell_at (store s' ! r) (0, 3) = - 9999"
    by (simp add: NODATA_def)
  from run c2 c3 have "convert_to_raster ex_burn s = Inr (r, s') \<and>
     cell_at (store s' ! r) (0, 2) = 1 \<and> cell_at (store s' ! r) (0, 3) = - 9999"
    by (simp only: simp_thms)
  then show ?thesis
    unfolding s_def by (intro exI)
qed

section \<open>The returned grid as a value: agreement\<close>

lemma rasterize_water_overlay:
  "(case rasterize_water burn t s arr of Inl e \<Rightarrow> Inl e | Inr (a, s') \<Rightarrow> Inr a) =
   overlay burn t (map wat_geometry (water s)) arr 7"
  by (simp add: rasterize_water_def overlay_def split: sum.splits)

lemma rasterize_water_frame:
  "rasterize_water burn t s arr = Inr (a, s') \<Longrightarrow>
   buildings s' = buildings s \<and> store s' = store s"
  by (auto simp: rasterize_water_def split: sum.splits if_splits)

lemma rasterize_buildings_overlay:
  "r < length (store s) \<Longrightarrow> store s ! r = arr \<Longrightarrow>
   grid_of (rasterize_buildings burn t s r arr) =
   overlay burn t (map bld_geometry (buildings s)) arr 2"
  by (simp add: rasterize_buildings_def overlay_def grid_of_def alloc_def split: sum.splits)

lemma convert_to_raster_grid: "grid_of (convert_to_raster burn s) = compose_grid burn s"
proof (cases "rasterize_features burn (ds_transform (dtm_dataset s)) (terrains s)
             (fill (read1 (dtm_dataset s)) NODATA)")
  case (Inl e)
  then show ?thesis
    by (simp add: convert_to_raster_def compose_grid_def grid_of_def Let_def)
next
  case a2: (Inr arr2)
  show ?thesis
  proof (cases "rasterize_features burn (ds_transform (dtm_dataset s)) (roads s) arr2")
    case (Inl e)
    with a2 show ?thesis
      by (simp add: convert_to_raster_def compose_grid_def grid_of_def Let_def)
  next
    case a3: (Inr arr3)
    define s1 where "s1 = s\<lparr>transform := Some (ds_transform (dtm_dataset s))\<rparr>"
    show ?thesis
    proof (cases "rasterize_water burn (ds_transform (dtm_dataset s)) s1 arr3")
      case (Inl e)
      with rasterize_water_overlay [of burn "ds_transform (dtm_dataset s)" s1 arr3]
      have "overlay burn (ds_transform (dtm_dataset s)) (map wat_geometry (water s)) arr3 7 = Inl e"
        by (simp add: s1_def)
      with a2 a3 Inl show ?thesis
        by (simp add: convert_to_raster_def compose_grid_def grid_of_def Let_def s1_def)
    next
      case (Inr p)
      then obtain arr4 s2 where a4:
        "rasterize_water burn (ds_transform (dtm_dataset s)) s1 arr3 = Inr (arr4, s2)"
        by (cases p) simp
      with rasterize_water_overlay [of burn "ds_transform (dtm_dataset s)" s1 arr3]
      have w: "overlay burn (ds_transform (dtm_dataset s)) (map wat_geometry (water s)) arr3 7
          = Inr arr4"
        by (simp add: s1_def)
      define s3 where "s3 = s2\<lparr>landcover_withoutbuild := Some (length (store s2)),
        store := store s2 @ [arr4]\<rparr>"
      from rasterize_water_frame [OF a4] have b3: "buildings s3 = buildings s"
        by (simp add: s3_def s1_def)
      have "grid_of (rasterize_buildings burn (ds_transform (dtm_dataset s)) s3
          (length (store s2)) arr4) =
        overlay burn (ds_transform (dtm_dataset s)) (map bld_geometry (buildings s3)) arr4 2"
        by (rule rasterize_buildings_overlay) (simp_all add: s3_def)
      with a2 a3 a4 w b3 show ?thesis
        by (simp add: convert_to_raster_def compose_grid_def Let_def s1_def s3_def alloc_def)
    qed
  qed
qed

section \<open>Coordinate references and malformed geometries\<close>

lemma rasterize_features_malformed:
  "\<exists>f\<in>set fs. geometry f = Malformed \<Longrightarrow> \<exists>e. rasterize_features burn t fs a = Inl e"
proof (induction fs arbitrary: a)
  case Nil
  then show ?case by simp
next
  case (Cons f fs)
  show ?case
  proof (cases "geometry f")
    case Malformed
    then show ?thesis by (simp add: shape_def)
  next
    case (GeoJSON g)
    with Cons.prems have "\<exists>f\<in>set fs. geometry f = Malformed" by auto
    from Cons.IH [OF this] GeoJSON show ?thesis
      by (simp add: shape_def split: option.splits sum.splits)
  qed
qed

lemma shapes_of_malformed: "Malformed \<in> set js \<Longrightarrow> \<exists>e. shapes_of js = Inl e"
  by (induction js) (auto simp: shape_def split: geojson.splits sum.splits)

lemma overlay_malformed: "Malformed \<in> set js \<Longrightarrow> \<exists>e. overlay burn t js arr v = Inl e"
  using shapes_of_malformed [of js] by (auto simp: overlay_def)

lemma grid_of_Inl: "(\<exists>e. grid_of res = Inl e) = (\<exists>e. res = Inl e)"
  by (cases res) (auto simp: grid_of_def)

lemma compose_grid_malformed:
  assumes "(\<exists>f\<in>set (terrains s). geometry f = Malformed) \<or>
     (\<exists>f\<in>set (roads s). geometry f = Malformed) \<or>
     (\<exists>f\<in>set (water s). wat_geometry f = Malformed) \<or>
     (\<exists>f\<in>set (buildings s). bld_geometry f = Malformed)"
  shows "\<exists>e. compose_grid burn s = Inl e"
proof -
  let ?t = "ds_transform (dtm_dataset s)"
  show ?thesis
  proof (cases "rasterize_features burn ?t (terrains s) (fill (read1 (dtm_dataset s)) NODATA)")
    case (Inl e)
    then show ?thesis by (simp add: compose_grid_def)
  next
    case a2: (Inr arr2)
    with rasterize_features_malformed
      [of "terrains s" burn ?t "fill (read1 (dtm_dataset s)) NODATA"]
    have nt: "\<not> (\<exists>f\<in>set (terrains s). geometry f = Malformed)"
      by auto
    show ?thesis
    proof (cases "rasterize_features burn ?t (roads s) arr2")
      case (Inl e)
      with a2 show ?thesis by (simp add: compose_grid_def)
    next
      case a3: (Inr arr3)
      with rasterize_features_malformed [of "roads s" burn ?t arr2]
      have nr: "\<not> (\<exists>f\<in>set (roads s). geometry f = Malformed)"
        by auto
      show ?thesis
      proof (cases "overlay burn ?t (map wat_geometry (water s)) arr3 7")
        case (Inl e)
        with a2 a3 show ?thesis by (simp add: compose_grid_def)
      next
        case a4: (Inr arr4)
        with overlay_malformed [of "map wat_geometry (water s)" burn ?t arr3 7]
        have nw: "\<not> (\<exists>f\<in>set (water s). wat_geometry f = Malformed)"
          by force
        with nt nr assms have "Malformed \<in> set (map bld_geometry (buildings s))"
          by force
        from overlay_malformed [OF this, of burn ?t arr4 2] a2 a3 a4 show ?thesis
          by (simp add: compose_grid_def)
      qed
    qed
  qed
qed

lemma compose_grid_crs:
  "compose_grid burn (s\<lparr>crs := c1, dtm_dataset := (dtm_dataset s)\<lparr>ds_crs := c2\<rparr>\<rparr>) =
   compose_grid burn s"
  by (simp add: compose_grid_def read1_def cong: sum.case_cong)

text \<open>
  Claim C5 says that a coordinate reference mismatch between features and grid aborts the
  composition with a ValidationError, and that a malformed polygon is skipped while the
  rest is processed. Neither holds: \<open>convert_to_raster\<close> compares no coordinate
  references, so the object with mismatching references gets its grid; and nothing catches
  the exception that \<open>shape\<close> raises, so one malformed terrain feature ends the call
  although the feature after it is well-formed.
\<close>

theorem crs_and_malformed_counterexample:
  "crs ex_mismatch \<noteq> ds_crs (dtm_dataset ex_mismatch) \<and>
   grid_of (convert_to_raster ex_burn ex_mismatch) = Inr [[5, 5, 5, 5]] \<and>
   grid_of (convert_to_raster ex_burn (ex_layers [ex_malformed, ex_terrain] [] [] [])) =
     Inl ShapeError"
  by code_simp

text \<open>
  Claim C5, as the code has it. The composition performs no coordinate-reference check:
  the grid it returns (or its failure) is the same whatever the coordinate references of
  the object and of the dataset are. An exception raised for a feature is not caught: if
  the geometry of any terrain, road, water or building feature is malformed, the whole
  call fails and returns no grid.
\<close>

theorem no_reference_check_no_skip:
  "grid_of (convert_to_raster burn
      (s\<lparr>crs := c1, dtm_dataset := (dtm_dataset s)\<lparr>ds_crs := c2\<rparr>\<rparr>)) =
     grid_of (convert_to_raster burn s) \<and>
   ((\<exists>f\<in>set (terrains s). geometry f = Malformed) \<or>
    (\<exists>f\<in>set (roads s). geometry f = Malformed) \<or>
    (\<exists>f\<in>set (water s). wat_geometry f = Malformed) \<or>
    (\<exists>f\<in>set (buildings s). bld_geometry f = Malformed) \<longrightarrow>
    (\<exists>e. convert_to_raster burn s = Inl e))"
proof (intro conjI impI)
  show "grid_of (convert_to_raster burn
      (s\<lparr>crs := c1, dtm_dataset := (dtm_dataset s)\<lparr>ds_crs := c2\<rparr>\<rparr>)) =
     grid_of (convert_to_raster burn s)"
    by (simp only: convert_to_raster_grid compose_grid_crs)
next
  assume "(\<exists>f\<in>set (terrains s). geometry f = Malformed) \<or>
    (\<exists>f\<in>set (roads s). geometry f = Malformed) \<or>
    (\<exists>f\<in>set (water s). wat_geometry f = Malformed) \<or>
    (\<exists>f\<in>set (buildings s). bld_geometry f = Malformed)"
  from compose_grid_malformed [OF this, of burn]
  have "\<exists>e. grid_of (convert_to_raster burn s) = Inl e"
    by (simp only: convert_to_raster_grid)
  then show "\<exists>e. convert_to_raster burn s = Inl e"
    by (simp only: grid_of_Inl)
qed

theorem no_reference_check_no_skip_witness:
  "(\<exists>f\<in>set (terrains (ex_layers [ex_malformed, ex_terrain] [] [] [])). geometry f = Malformed) \<and>
   (\<exists>e. convert_to_raster ex_burn (ex_layers [ex_malformed, ex_terrain] [] [] []) = Inl e)"
proof -
  have m: "\<exists>f\<in>set (terrains (ex_layers [ex_malformed, ex_terrain] [] [] [])). geometry f = Malformed"
    by (simp add: ex_layers_def fresh_landcover_def ex_malformed_def)
  with no_reference_check_no_skip [where burn = ex_burn
      and s = "ex_layers [ex_malformed, ex_terrain] [] [] []", THEN conjunct2]
  have "\<exists>e. convert_to_raster ex_burn (ex_layers [ex_malformed, ex_terrain] [] [] []) = Inl e"
    by blast
  with m show ?thesis by (rule conjI)
qed

section \<open>Empty layers\<close>

lemma shapes_of_Nil: "(shapes_of js = Inr []) = (js = [])"
  by (cases js) (auto split: sum.splits)

lemma rasterize_water_stdout:
  "rasterize_water burn t s arr = Inr (a, s') \<Longrightarrow>
   stdout s' = stdout s @ (if water s = [] then [water_note] else [])"
  by (auto simp: rasterize_water_def water_note_def shapes_of_Nil split: sum.splits if_splits)

lemma rasterize_buildings_stdout:
  "rasterize_buildings burn t s r arr = Inr (r', s') \<Longrightarrow>
   stdout s' = stdout s @ (if buildings s = [] then [building_note] else [])"
  by (auto simp: rasterize_buildings_def building_note_def shapes_of_Nil alloc_def
      split: sum.splits if_splits)

lemma convert_to_raster_stdout:
  assumes "convert_to_raster burn s = Inr (r, s')"
  shows "stdout s' = stdout s @ (if water s = [] then [water_note] else []) @
    (if buildings s = [] then [building_note] else [])"
proof -
  define t where "t = ds_transform (dtm_dataset s)"
  define s1 where "s1 = s\<lparr>transform := Some t\<rparr>"
  from assms obtain arr3 arr4 s2 where
    a4: "rasterize_water burn t s1 arr3 = Inr (arr4, s2)" and
    a5: "rasterize_buildings burn t
      (s2\<lparr>landcover_withoutbuild := Some (length (store s2)), store := store s2 @ [arr4]\<rparr>)
      (length (store s2)) arr4 = Inr (r, s')"
    by (auto simp: convert_to_raster_def Let_def alloc_def t_def s1_def split: sum.splits)
  from rasterize_water_frame [OF a4] have "buildings s2 = buildings s"
    by (simp add: s1_def)
  with rasterize_water_stdout [OF a4] rasterize_buildings_stdout [OF a5] show ?thesis
    by (simp add: s1_def)
qed

text \<open>
  Claim C6 says that every empty layer, the terrain and road layers included, gives an
  informational note. With no terrain and no road feature, and a water feature and a
  building, the call prints nothing at all: the terrain and road loops have no note.
\<close>

theorem empty_layer_note_counterexample:
  "printed (convert_to_raster ex_burn (ex_layers [] [] [ex_water] [ex_building])) = Inr []"
  by code_simp

text \<open>
  Claim C6, as the code has it. An empty layer is not rasterized, leaves the grid as it
  is and raises no error: the loop over an empty terrain or road list returns the array
  unchanged, and the water and building blocks return the array (the same object, for the
  buildings) unchanged. The note is printed for an empty water layer and for an empty
  building layer only; these are all the notes a call prints. With all four layers empty
  the call returns the grid filled with NODATA.
\<close>

theorem empty_layer_skipped:
  "rasterize_features burn t [] arr = Inr arr \<and>
   (water s = [] \<longrightarrow>
      rasterize_water burn t s arr = Inr (arr, s\<lparr>stdout := stdout s @ [water_note]\<rparr>)) \<and>
   (buildings s = [] \<longrightarrow>
      rasterize_buildings burn t s r arr = Inr (r, s\<lparr>stdout := stdout s @ [building_note]\<rparr>)) \<and>
   (terrains s = [] \<and> roads s = [] \<and> water s = [] \<and> buildings s = [] \<longrightarrow>
      grid_of (convert_to_raster burn s) = Inr (fill (read1 (dtm_dataset s)) NODATA)) \<and>
   (\<forall>r' s'. convert_to_raster burn s = Inr (r', s') \<longrightarrow>
      stdout s' = stdout s @ (if water s = [] then [water_note] else []) @
        (if buildings s = [] then [building_note] else []))"
proof (intro conjI impI allI)
  show "rasterize_features burn t [] arr = Inr arr"
    by simp
next
  assume "water s = []"
  then show "rasterize_water burn t s arr = Inr (arr, s\<lparr>stdout := stdout s @ [water_note]\<rparr>)"
    by (simp add: rasterize_water_def water_note_def)
next
  assume "buildings s = []"
  then show "rasterize_buildings burn t s r arr =
      Inr (r, s\<lparr>stdout := stdout s @ [building_note]\<rparr>)"
    by (simp add: rasterize_buildings_def building_note_def)
next
  assume "terrains s = [] \<and> roads s = [] \<and> water s = [] \<and> buildings s = []"
  then show "grid_of (convert_to_raster burn s) = Inr (fill (read1 (dtm_dataset s)) NODATA)"
    by (simp add: convert_to_raster_grid compose_grid_def overlay_def)
next
  fix r' s'
  assume "convert_to_raster burn s = Inr (r', s')"
  then show "stdout s' = stdout s @ (if water s = [] then [water_note] else []) @
        (if buildings s = [] then [building_note] else [])"
    by (rule convert_to_raster_stdout)
qed

theorem empty_layer_skipped_witness:
  "terrains (ex_layers [] [] [] []) = [] \<and> roads (ex_layers [] [] [] []) = [] \<and>
   water (ex_layers [] [] [] []) = [] \<and> buildings (ex_layers [] [] [] []) = [] \<and>
   grid_of (convert_to_raster ex_burn (ex_layers [] [] [] [])) =
     Inr [[- 9999, - 9999, - 9999, - 9999]]"
proof -
  have e: "terrains (ex_layers [] [] [] []) = [] \<and> roads (ex_layers [] [] [] []) = [] \<and>
   water (ex_layers [] [] [] []) = [] \<and> buildings (ex_layers [] [] [] []) = []"
    by (simp add: ex_layers_def fresh_landcover_def)
  have f: "fill (read1 (dtm_dataset (ex_layers [] [] [] []))) NODATA =
      [[- 9999, - 9999, - 9999, - 9999]]"
    by code_simp
  from empty_layer_skipped [where s = "ex_layers [] [] [] []" and burn = ex_burn,
      THEN conjunct2, THEN conjunct2, THEN conjunct2, THEN conjunct1, THEN mp, OF e] f
  have "grid_of (convert_to_raster ex_burn (ex_layers [] [] [] [])) =
     Inr [[- 9999, - 9999, - 9999, - 9999]]"
    by simp
  with e show ?thesis by (simp only: simp_thms)
qed

section \<open>Features without a classification\<close>

lemma rasterize_features_skip:
  "landuse f = None \<Longrightarrow> geometry f = GeoJSON g \<Longrightarrow>
   rasterize_features burn t (fs1 @ f # fs2) a = rasterize_features burn t (fs1 @ fs2) a"
  by (induction fs1 arbitrary: a)
    (simp_all add: shape_def split: sum.splits option.splits geojson.splits)

lemma compose_grid_skip_terrain:
  "landuse f = None \<Longrightarrow> geometry f = GeoJSON g \<Longrightarrow>
   compose_grid burn (s\<lparr>terrains := fs1 @ f # fs2\<rparr>) = compose_grid burn (s\<lparr>terrains := fs1 @ fs2\<rparr>)"
  by (simp add: compose_grid_def rasterize_features_skip cong: sum.case_cong)

lemma compose_grid_skip_road:
  "landuse f = None \<Longrightarrow> geometry f = GeoJSON g \<Longrightarrow>
   compose_grid burn (s\<lparr>roads := fs1 @ f # fs2\<rparr>) = compose_grid burn (s\<lparr>roads := fs1 @ fs2\<rparr>)"
  by (simp add: compose_grid_def rasterize_features_skip cong: sum.case_cong)


text \<open>
  Claim C8. A lookup miss gives the value -1, which is neither NODATA nor one of the
  codes 0..8 (\<open>get_landcover_code\<close>, and \<open>landuse_value\<close> in the terrain and the road
  loop, where a road of type "verhard" does no lookup). The feature built from it has no
  \<open>landuse\<close> and a well-formed geometry, and such a feature alters no cell: the loop over
  a feature list gives the same array with and without it, and so does the whole
  composition, whether the feature stands among the terrains or among the roads.
\<close>

theorem unclassified_feature_inert:
  "- 1 \<noteq> NODATA \<and> (- 1 :: int) \<notin> {0..8} \<and>
   (dict_get lm (if isroad then ''road'' else ''terrain'') Map.empty (str_lower land_type) = None
      \<longrightarrow> get_landcover_code lm land_type isroad = - 1) \<and>
   (dict_get lm ''terrain'' Map.empty (landusetype ter) = None \<longrightarrow>
      terrain_landuse_value lm ter = - 1 \<and>
      (\<forall>f. terrain_feature is_polygon lm ter = Inr (Some f) \<longrightarrow>
         landuse f = None \<and> (\<exists>g. geometry f = GeoJSON g))) \<and>
   (verhardingstype road \<noteq> ''verhard'' \<and>
    dict_get lm ''road'' Map.empty (verhardingstype road) = None \<longrightarrow>
      road_landuse_value mr lm road = - 1 \<and>
      (\<forall>f. road_feature is_polygon mr lm road = Inr (Some f) \<longrightarrow>
         landuse f = None \<and> (\<exists>g. geometry f = GeoJSON g))) \<and>
   (landuse f = None \<and> geometry f = GeoJSON g \<longrightarrow>
      rasterize_features burn t (fs1 @ f # fs2) a = rasterize_features burn t (fs1 @ fs2) a \<and>
      grid_of (convert_to_raster burn (s\<lparr>terrains := fs1 @ f # fs2\<rparr>)) =
        grid_of (convert_to_raster burn (s\<lparr>terrains := fs1 @ fs2\<rparr>)) \<and>
      grid_of (convert_to_raster burn (s\<lparr>roads := fs1 @ f # fs2\<rparr>)) =
        grid_of (convert_to_raster burn (s\<lparr>roads := fs1 @ fs2\<rparr>)))"
proof (intro conjI impI allI)
  show "- 1 \<noteq> NODATA" by (simp add: NODATA_def)
  show "(- 1 :: int) \<notin> {0..8}" by simp
next
  assume "dict_get lm (if isroad then ''road'' else ''terrain'') Map.empty (str_lower land_type)
    = None"
  then show "get_landcover_code lm land_type isroad = - 1"
    by (simp add: get_landcover_code_def dict_get_def)
next
  assume "dict_get lm ''terrain'' Map.empty (landusetype ter) = None"
  then show "terrain_landuse_value lm ter = - 1"
    by (simp add: terrain_landuse_value_def dict_get_def)
next
  fix f'
  assume "dict_get lm ''terrain'' Map.empty (landusetype ter) = None"
    and "terrain_feature is_polygon lm ter = Inr (Some f')"
  then show "landuse f' = None" and "\<exists>g. geometry f' = GeoJSON g"
    by (auto simp: terrain_feature_def terrain_landuse_value_def new_properties_def
        mapping_def dict_get_def split: sum.splits if_splits)
next
  assume "verhardingstype road \<noteq> ''verhard'' \<and>
    dict_get lm ''road'' Map.empty (verhardingstype road) = None"
  then show "road_landuse_value mr lm road = - 1"
    by (simp add: road_landuse_value_def dict_get_def)
next
  fix f'
  assume "verhardingstype road \<noteq> ''verhard'' \<and>
    dict_get lm ''road'' Map.empty (verhardingstype road) = None"
    and "road_feature is_polygon mr lm road = Inr (Some f')"
  then show "landuse f' = None" and "\<exists>g. geometry f' = GeoJSON g"
    by (auto simp: road_feature_def road_landuse_value_def new_properties_def
        mapping_def dict_get_def split: sum.splits if_splits)
next
  assume "landuse f = None \<and> geometry f = GeoJSON g"
  then have l: "landuse f = None" and g: "geometry f = GeoJSON g"
    by simp_all
  show "rasterize_features burn t (fs1 @ f # fs2) a = rasterize_features burn t (fs1 @ fs2) a"
    using l g by (rule rasterize_features_skip)
  show "grid_of (convert_to_raster burn (s\<lparr>terrains := fs1 @ f # fs2\<rparr>)) =
        grid_of (convert_to_raster burn (s\<lparr>terrains := fs1 @ fs2\<rparr>))"
    by (simp only: convert_to_raster_grid compose_grid_skip_terrain [OF l g])
  show "grid_of (convert_to_raster burn (s\<lparr>roads := fs1 @ f # fs2\<rparr>)) =
        grid_of (convert_to_raster burn (s\<lparr>roads := fs1 @ fs2\<rparr>))"
    by (simp only: convert_to_raster_grid compose_grid_skip_road [OF l g])
qed


theorem unclassified_feature_inert_witness:
  "dict_get ex_table ''terrain'' Map.empty (landusetype ex_unknown) = None \<and>
   terrain_landuse_value ex_table ex_unknown = - 1 \<and>
   terrain_feature (\<lambda>_. True) ex_table ex_unknown = Inr (Some ex_nocode) \<and>
   landuse ex_nocode = None \<and>
   verhardingstype ex_unknown_road \<noteq> ''verhard'' \<and>
   dict_get ex_table ''road'' Map.empty (verhardingstype ex_unknown_road) = None \<and>
   road_landuse_value 0 ex_table ex_unknown_road = - 1 \<and>
   grid_of (convert_to_raster ex_burn
     ((ex_layers [] [] [] [])\<lparr>terrains := [ex_terrain] @ ex_nocode # []\<rparr>)) =
   grid_of (convert_to_raster ex_burn
     ((ex_layers [] [] [] [])\<lparr>terrains := [ex_terrain] @ []\<rparr>))"
proof -
  have miss: "dict_get ex_table ''terrain'' Map.empty (landusetype ex_unknown) = None"
    by code_simp
  have feat: "terrain_feature (\<lambda>_. True) ex_table ex_unknown = Inr (Some ex_nocode)"
    by code_simp
  have rmiss: "verhardingstype ex_unknown_road \<noteq> ''verhard'' \<and>
    dict_get ex_table ''road'' Map.empty (verhardingstype ex_unknown_road) = None"
    by code_simp
  have nc: "landuse ex_nocode = None \<and> geometry ex_nocode = GeoJSON [(0, 1), (0, 2)]"
    by (simp add: ex_nocode_def)
  note law = unclassified_feature_inert [where lm = ex_table and ter = ex_unknown
      and road = ex_unknown_road and mr = 0 and f = ex_nocode and g = "[(0, 1), (0, 2)]"
      and burn = ex_burn and s = "ex_layers [] [] [] []" and ?fs1.0 = "[ex_terrain]"
      and ?fs2.0 = "[]" and is_polygon = "\<lambda>_. True"]
  note terrain_part = law [THEN conjunct2, THEN conjunct2, THEN conjunct2, THEN conjunct1,
      THEN mp, OF miss]
  note road_part = law [THEN conjunct2, THEN conjunct2, THEN conjunct2, THEN conjunct2,
      THEN conjunct1, THEN mp, OF rmiss]
  note inert = law [THEN conjunct2, THEN conjunct2, THEN conjunct2, THEN conjunct2,
      THEN conjunct2, THEN mp, OF nc]
  from terrain_part have t1: "terrain_landuse_value ex_table ex_unknown = - 1"
    by (rule conjunct1)
  from terrain_part feat have t2: "landuse ex_nocode = None"
    by blast
  from road_part have r1: "road_landuse_value 0 ex_table ex_unknown_road = - 1"
    by (rule conjunct1)
  from inert have g: "grid_of (convert_to_raster ex_burn
     ((ex_layers [] [] [] [])\<lparr>terrains := [ex_terrain] @ ex_nocode # []\<rparr>)) =
   grid_of (convert_to_raster ex_burn
     ((ex_layers [] [] [] [])\<lparr>terrains := [ex_terrain] @ []\<rparr>))"
    by blast
  from miss t1 feat t2 rmiss r1 g show ?thesis
    by (simp only: simp_thms)
qed

section \<open>Snapshots and in-place updates\<close>

lemma landcover_init_alias:
  "landcover_init burn c mr ds lm ts rs ws bs = Inr s \<Longrightarrow>
   og_landcover s = array s \<and> array s \<noteq> None \<and> landcover_withoutbuild s = None"
  by (auto simp: landcover_init_def split: sum.splits)

lemma update_landcover_alias:
  "update_landcover land_type input_array s = Inr s' \<Longrightarrow> og_landcover s = array s \<Longrightarrow>
   og_landcover s' = array s' \<and>
   deref (store s') (og_landcover s') = deref (store s') (array s')"
  by (auto simp: update_landcover_def Let_def split: option.splits if_splits)

text \<open>
  Claim C7 says that the snapshots \<open>og_landcover\<close> and \<open>landcover_withoutbuild\<close> keep
  the cell values they had when they were taken, whatever updates follow. The code does
  not keep them: \<open>__init__\<close> binds \<open>og_landcover\<close> to the very array object of \<open>array\<close>
  and resets \<open>landcover_withoutbuild\<close> to \<open>None\<close>, and \<open>update_landcover\<close> writes into
  that object. On the example object the original grid is all 5; after
  \<open>update_landcover(3, [[0, 0, -1, -1]])\<close> the field \<open>og_landcover\<close> reads 3, 3, 5, 5.
\<close>

theorem og_landcover_mutated:
  "map_sum id (\<lambda>s. og_landcover s = array s) ex_object = Inr True \<and>
   field_array og_landcover ex_object = Inr (Some [[5, 5, 5, 5]]) \<and>
   field_array landcover_withoutbuild ex_object = Inr None \<and>
   field_array og_landcover (then_do ex_object (update_landcover 3 [[0, 0, - 1, - 1]])) =
     Inr (Some [[3, 3, 5, 5]])"
  by code_simp

section \<open>Matching footprint blobs to highest blobs\<close>

lemma enumerate_from_Nil: "enumerate_from n [] = []"
  by (simp add: enumerate_from_def)

lemma enumerate_from_Cons: "enumerate_from n (x # xs) = (n, x) # enumerate_from (Suc n) xs"
  by (simp add: enumerate_from_def upt_conv_Cons del: upt_Suc)

lemma blob_buildings_Nil: "blob_buildings L n [] = []"
  by (simp add: blob_buildings_def enumerate_from_Nil)

lemma blob_buildings_Cons:
  "blob_buildings L n (p # ps) =
   \<lparr>bld_geometry = mapping (fst p), parcel_id = take 8 (lib_uuid4 L n)\<rparr> #
   blob_buildings L (Suc n) ps"
  by (cases p) (simp add: blob_buildings_def enumerate_from_Cons)

lemma length_blob_buildings: "length (blob_buildings L n ps) = length ps"
  by (simp add: blob_buildings_def enumerate_from_def)

lemma nth_blob_buildings:
  "i < length ps \<Longrightarrow>
   blob_buildings L n ps ! i =
   \<lparr>bld_geometry = mapping (fst (ps ! i)), parcel_id = take 8 (lib_uuid4 L (n + i))\<rparr>"
proof (induction ps arbitrary: n i)
  case Nil
  then show ?case by simp
next
  case (Cons p ps)
  show ?case
  proof (cases i)
    case 0
    then show ?thesis by (simp add: blob_buildings_Cons)
  next
    case (Suc k)
    with Cons.prems have "k < length ps" by simp
    from Cons.IH [OF this, of "Suc n"] Suc show ?thesis
      by (simp add: blob_buildings_Cons)
  qed
qed

lemma rtree_entries_blobs:
  "rtree_entries L (enumerate_from k (blob_buildings L n ps)) =
   Inr (map (\<lambda>(i, (geom, v)). (i, lib_bounds L geom)) (enumerate_from k ps))"
proof (induction ps arbitrary: k n)
  case Nil
  then show ?case by (simp add: blob_buildings_Nil enumerate_from_Nil)
next
  case (Cons p ps)
  then show ?case
    by (cases p) (simp add: blob_buildings_Cons enumerate_from_Cons shape_def mapping_def)
qed

lemma first_match_find:
  "list_all (\<lambda>i. i < length shps) cands \<Longrightarrow>
   first_match L fg (blob_buildings L n shps) cands =
   Inr (map_option (\<lambda>i. parcel_id (blob_buildings L n shps ! i))
          (find (\<lambda>i. matches L fg (fst (shps ! i))) cands))"
proof (induction cands)
  case Nil
  then show ?case by simp
next
  case (Cons i cands)
  then have i: "i < length shps" and rest: "list_all (\<lambda>i. i < length shps) cands"
    by simp_all
  from Cons.IH [OF rest] i show ?case
    by (simp add: length_blob_buildings nth_blob_buildings shape_def mapping_def)
qed

lemma match_footprints_map:
  "candidates_in_range L shps fshps \<Longrightarrow>
   match_footprints L (rtree_index_of L shps) (blob_buildings L 0 shps)
     (blob_buildings L n fshps) =
   Inr (map (matched_building L shps (blob_buildings L 0 shps))
          (zip (blob_buildings L n fshps) fshps))"
proof (induction fshps arbitrary: n)
  case Nil
  then show ?case by (simp add: blob_buildings_Nil)
next
  case (Cons p fshps)
  obtain fg v where p: "p = (fg, v)" by (cases p)
  from Cons.prems p have c: "list_all (\<lambda>i. i < length shps) (candidates L shps fg)"
    and rest: "candidates_in_range L shps fshps"
    by (simp_all add: candidates_in_range_def)
  note fm = first_match_find [OF c, of L fg 0]
  from Cons.IH [OF rest, of "Suc n"] fm p show ?case
    by (simp add: blob_buildings_Cons shape_def mapping_def candidates_def
        matched_building_def split: option.splits)
qed

lemma insert_user_buildings_footprint:
  assumes "candidates_in_range L (extract_shapes L ha t) (extract_shapes L fa t)"
  shows "insert_user_buildings L ha t (Some fa) s =
    Inr (s\<lparr>is3D := True, removed_user_buildings := [],
          user_buildings_higher := blob_buildings L 0 (extract_shapes L ha t),
          user_buildings :=
            map (matched_building L (extract_shapes L ha t)
                   (blob_buildings L 0 (extract_shapes L ha t)))
              (zip (blob_buildings L (length (extract_shapes L ha t)) (extract_shapes L fa t))
                 (extract_shapes L fa t))\<rparr>)"
  using match_footprints_map [OF assms, of "length (extract_shapes L ha t)"]
  by (simp add: insert_user_buildings_def Let_def rtree_entries_blobs rtree_index_of_def
      length_blob_buildings)

lemma insert_user_buildings_plain:
  "insert_user_buildings L ha t None s =
    Inr (s\<lparr>is3D := False, removed_user_buildings := [], user_buildings_higher := [],
          user_buildings := blob_buildings L 0 (extract_shapes L ha t)\<rparr>)"
  by (simp add: insert_user_buildings_def Let_def)

lemma map_geometry_matched:
  "length fbs = length fshps \<Longrightarrow>
   map bld_geometry (map (matched_building L shps hbs) (zip fbs fshps)) = map bld_geometry fbs"
  by (induction fbs fshps rule: list_induct2)
    (auto simp: matched_building_def split: option.splits)

text \<open>
  Claim C4. When a footprint array is given and the index returns only identifiers of
  inserted entries, \<open>insert_user_buildings\<close> succeeds; every footprint blob is paired with
  the first candidate, in the order in which the index query returned them, whose
  geometry passes the test of line 641, and takes that candidate's identifier; without
  such a candidate it stays as it was generated, with its own identifier. The geometries
  of the footprint blobs are those that were extracted, and the highest blobs are stored
  as extracted. The test is \<open>footprint.intersects(highest) or footprint.within(highest)\<close>;
  for a symmetric \<open>intersects\<close> that \<open>within\<close> implies, which shapely's are, it is the same
  as the candidate intersecting or lying within the footprint.
\<close>

theorem footprint_takes_first_match:
  assumes "candidates_in_range L (extract_shapes L ha t) (extract_shapes L fa t)"
  shows "\<exists>s'. insert_user_buildings L ha t (Some fa) s = Inr s' \<and>
    user_buildings_higher s' = blob_buildings L 0 (extract_shapes L ha t) \<and>
    user_buildings s' =
      map (\<lambda>(fb, (fg, v)).
             case find (\<lambda>i. matches L fg (fst (extract_shapes L ha t ! i)))
                    (lib_rtree_intersection L (rtree_index_of L (extract_shapes L ha t))
                       (lib_bounds L fg)) of
               None \<Rightarrow> fb
             | Some i \<Rightarrow> fb\<lparr>parcel_id := parcel_id (user_buildings_higher s' ! i)\<rparr>)
        (zip (blob_buildings L (length (extract_shapes L ha t)) (extract_shapes L fa t))
           (extract_shapes L fa t)) \<and>
    map bld_geometry (user_buildings s') =
      map bld_geometry
        (blob_buildings L (length (extract_shapes L ha t)) (extract_shapes L fa t)) \<and>
    ((\<forall>a b. lib_intersects L a b = lib_intersects L b a) \<and>
     (\<forall>a b. lib_within L a b \<longrightarrow> lib_intersects L a b) \<longrightarrow>
     (\<forall>fg hg. matches L fg hg = (lib_intersects L hg fg \<or> lib_within L hg fg)))"
proof -
  let ?sh = "extract_shapes L ha t" and ?fsh = "extract_shapes L fa t"
  let ?hs = "blob_buildings L 0 ?sh" and ?fbs = "blob_buildings L (length ?sh) ?fsh"
  define s' where "s' = s\<lparr>is3D := True, removed_user_buildings := [],
      user_buildings_higher := ?hs,
      user_buildings := map (matched_building L ?sh ?hs) (zip ?fbs ?fsh)\<rparr>"
  have run: "insert_user_buildings L ha t (Some fa) s = Inr s'"
    unfolding s'_def by (rule insert_user_buildings_footprint [OF assms])
  have hi: "user_buildings_higher s' = ?hs"
    by (simp add: s'_def)
  have mb: "matched_building L ?sh ?hs =
      (\<lambda>(fb, (fg, v)).
             case find (\<lambda>i. matches L fg (fst (?sh ! i)))
                    (lib_rtree_intersection L (rtree_index_of L ?sh) (lib_bounds L fg)) of
               None \<Rightarrow> fb
             | Some i \<Rightarrow> fb\<lparr>parcel_id := parcel_id (?hs ! i)\<rparr>)"
    by (rule ext) (simp add: matched_building_def candidates_def split: prod.splits)
  have ub: "user_buildings s' =
      map (\<lambda>(fb, (fg, v)).
             case find (\<lambda>i. matches L fg (fst (?sh ! i)))
                    (lib_rtree_intersection L (rtree_index_of L ?sh) (lib_bounds L fg)) of
               None \<Rightarrow> fb
             | Some i \<Rightarrow> fb\<lparr>parcel_id := parcel_id (user_buildings_higher s' ! i)\<rparr>)
        (zip ?fbs ?fsh)"
    unfolding hi by (simp add: s'_def mb)
  have len: "length ?fbs = length ?fsh"
    by (rule length_blob_buildings)
  have "user_buildings s' = map (matched_building L ?sh ?hs) (zip ?fbs ?fsh)"
    by (simp add: s'_def)
  then have geo: "map bld_geometry (user_buildings s') = map bld_geometry ?fbs"
    by (simp only: map_geometry_matched [OF len])
  have rel: "(\<forall>a b. lib_intersects L a b = lib_intersects L b a) \<and>
     (\<forall>a b. lib_within L a b \<longrightarrow> lib_intersects L a b) \<longrightarrow>
     (\<forall>fg hg. matches L fg hg = (lib_intersects L hg fg \<or> lib_within L hg fg))"
    unfolding matches_def by blast
  from run hi ub geo rel show ?thesis
    by (intro exI [of _ s'] conjI)
qed

theorem footprint_takes_first_match_witness:
  "candidates_in_range ex_geo (extract_shapes ex_geo ex_highest ())
     (extract_shapes ex_geo ex_footprint ()) \<and>
   (\<exists>s'. insert_user_buildings ex_geo ex_highest () (Some ex_footprint) ex_buildings_obj = Inr s' \<and>
      map parcel_id (user_buildings_higher s') = [''aaaaaaaa'', ''bbbbbbbb''] \<and>
      map parcel_id (user_buildings s') = [''bbbbbbbb'', ''dddddddd''] \<and>
      map bld_geometry (user_buildings s') =
        [GeoJSON [(1, 1), (1, 2), (1, 3)], GeoJSON [(2, 0)]])"
proof -
  have h: "candidates_in_range ex_geo (extract_shapes ex_geo ex_highest ())
     (extract_shapes ex_geo ex_footprint ())"
    by code_simp
  from footprint_takes_first_match [OF h, of ex_buildings_obj]
  obtain s' where
    run: "insert_user_buildings ex_geo ex_highest () (Some ex_footprint) ex_buildings_obj = Inr s'"
    and hi: "user_buildings_higher s' = blob_buildings ex_geo 0 (extract_shapes ex_geo ex_highest ())"
    and ub: "user_buildings s' =
      map (\<lambda>(fb, (fg, v)).
             case find (\<lambda>i. matches ex_geo fg (fst (extract_shapes ex_geo ex_highest () ! i)))
                    (lib_rtree_intersection ex_geo
                       (rtree_index_of ex_geo (extract_shapes ex_geo ex_highest ()))
                       (lib_bounds ex_geo fg)) of
               None \<Rightarrow> fb
             | Some i \<Rightarrow> fb\<lparr>parcel_id := parcel_id (user_buildings_higher s' ! i)\<rparr>)
        (zip (blob_buildings ex_geo (length (extract_shapes ex_geo ex_highest ()))
                (extract_shapes ex_geo ex_footprint ()))
           (extract_shapes ex_geo ex_footprint ()))"
    by (elim exE conjE)
  have a: "map parcel_id (user_buildings_higher s') = [''aaaaaaaa'', ''bbbbbbbb'']"
    unfolding hi by code_simp
  have b: "map parcel_id (user_buildings s') = [''bbbbbbbb'', ''dddddddd'']"
    unfolding ub hi by code_simp
  have c: "map bld_geometry (user_buildings s') =
        [GeoJSON [(1, 1), (1, 2), (1, 3)], GeoJSON [(2, 0)]]"
    unfolding ub hi by code_simp
  from run a b c have "\<exists>s'. insert_user_buildings ex_geo ex_highest () (Some ex_footprint)
        ex_buildings_obj = Inr s' \<and>
      map parcel_id (user_buildings_higher s') = [''aaaaaaaa'', ''bbbbbbbb''] \<and>
      map parcel_id (user_buildings s') = [''bbbbbbbb'', ''dddddddd''] \<and>
      map bld_geometry (user_buildings s') =
        [GeoJSON [(1, 1), (1, 2), (1, 3)], GeoJSON [(2, 0)]]"
    by (intro exI [of _ s'] conjI)
  with h show ?thesis
    by (rule conjI)
qed

text \<open>
  Claim C10. \<open>insert_user_buildings\<close> starts by emptying \<open>removed_user_buildings\<close> and
  \<open>user_buildings_higher\<close>: its result is the same as on the object with both lists
  already empty. So whatever identifiers \<open>remove_user_buildings\<close> recorded before, the
  list of removed user buildings is empty after every call that returns; the call always
  returns without a footprint array (and then the higher list is empty too), and with
  one whenever the index returns only identifiers of inserted entries.
\<close>

theorem insert_discards_removals:
  fixes ha :: "('a :: {zero, ord}) ndarray"
  shows "insert_user_buildings L ha t fa s =
     insert_user_buildings L ha t fa
       (s\<lparr>removed_user_buildings := [], user_buildings_higher := []\<rparr>) \<and>
   (\<forall>s'. insert_user_buildings L ha t fa (fold remove_user_buildings ids s) = Inr s' \<longrightarrow>
      removed_user_buildings s' = []) \<and>
   (\<exists>s'. insert_user_buildings L ha t None (fold remove_user_buildings ids s) = Inr s' \<and>
      removed_user_buildings s' = [] \<and> user_buildings_higher s' = []) \<and>
   (\<forall>fa' :: 'a ndarray.
      candidates_in_range L (extract_shapes L ha t) (extract_shapes L fa' t) \<longrightarrow>
      (\<exists>s'. insert_user_buildings L ha t (Some fa') (fold remove_user_buildings ids s) = Inr s' \<and>
         removed_user_buildings s' = []))"
proof (intro conjI allI impI)
  show "insert_user_buildings L ha t fa s =
     insert_user_buildings L ha t fa
       (s\<lparr>removed_user_buildings := [], user_buildings_higher := []\<rparr>)"
    by (simp add: insert_user_buildings_def Let_def)
next
  fix s'
  assume "insert_user_buildings L ha t fa (fold remove_user_buildings ids s) = Inr s'"
  then show "removed_user_buildings s' = []"
    by (auto simp: insert_user_buildings_def Let_def split: option.splits sum.splits)
next
  show "\<exists>s'. insert_user_buildings L ha t None (fold remove_user_buildings ids s) = Inr s' \<and>
      removed_user_buildings s' = [] \<and> user_buildings_higher s' = []"
    by (simp add: insert_user_buildings_plain)
next
  fix fa' :: "'a ndarray"
  assume "candidates_in_range L (extract_shapes L ha t) (extract_shapes L fa' t)"
  then show "\<exists>s'. insert_user_buildings L ha t (Some fa') (fold remove_user_buildings ids s)
      = Inr s' \<and> removed_user_buildings s' = []"
    by (simp add: insert_user_buildings_footprint)
qed

theorem insert_discards_removals_witness:
  "candidates_in_range ex_geo (extract_shapes ex_geo ex_highest ())
     (extract_shapes ex_geo ex_footprint ()) \<and>
   (\<exists>s'. insert_user_buildings ex_geo ex_highest () (Some ex_footprint)
        (fold remove_user_buildings [''aaaaaaaa'', ''bbbbbbbb''] ex_buildings_obj) = Inr s' \<and>
      removed_user_buildings s' = [])"
proof -
  have h: "candidates_in_range ex_geo (extract_shapes ex_geo ex_highest ())
     (extract_shapes ex_geo ex_footprint ())"
    by code_simp
  note law = insert_discards_removals [where L = ex_geo and ha = ex_highest and t = "()"
      and s = ex_buildings_obj and ids = "[''aaaaaaaa'', ''bbbbbbbb'']"]
  from law [THEN conjunct2, THEN conjunct2, THEN conjunct2, rule_format, OF h] h
  show ?thesis
    by (rule conjI [rotated])
qed

section \<open>The extracted blobs are the 4-connected regions\<close>

lemma cells_true_positive:
  "(p \<in> cells_true (positive a)) =
   (fst p < length a \<and> snd p < length (a ! fst p) \<and> 0 < cell_at a p)"
  by (cases p) (auto simp: cells_true_def positive_def cell_at_def)

lemma cell_at_astype:
  "fst p < length a \<Longrightarrow> snd p < length (a ! fst p) \<Longrightarrow>
   cell_at (astype_uint8 a) p = of_nat (cell_at a p)"
  by (simp add: astype_uint8_def cell_at_def)

lemma steps_after_cast:
  assumes "label_respects4 m lab"
  shows "steps (cells_true (positive lab)) (cell_at (astype_uint8 lab)) =
    steps (cells_true m) (\<lambda>_. ())"
proof -
  from assms have S: "cells_true (positive lab) = cells_true m"
    and same: "\<And>p q. p \<in> cells_true m \<Longrightarrow> q \<in> cells_true m \<Longrightarrow> adj4 p q \<Longrightarrow>
      cell_at lab p = cell_at lab q"
    by (simp_all add: label_respects4_def)
  have cast: "cell_at (astype_uint8 lab) p = of_nat (cell_at lab p)" if "p \<in> cells_true m" for p
    using that S cells_true_positive [of p lab] by (simp add: cell_at_astype)
  show ?thesis
    unfolding S steps_def using same cast by auto
qed

lemma regions_after_cast:
  "label_respects4 m lab \<Longrightarrow>
   regions (cells_true (positive lab)) (cell_at (astype_uint8 lab)) = regions4 (cells_true m)"
  by (simp add: regions_def regions4_def steps_after_cast) (simp add: label_respects4_def)

lemma blob_pixels_blob_buildings:
  "map (blob_pixels pixels t) (blob_buildings L n shps) = map (\<lambda>(g, v). pixels t g) shps"
  by (induction shps arbitrary: n)
    (auto simp: blob_buildings_Nil blob_buildings_Cons blob_pixels_def mapping_def)

lemma regions_empty: "regions {} val = {}"
  by (simp add: regions_def)

lemma parcel_id_blob_buildings:
  "map parcel_id (blob_buildings L n shps) =
   map (\<lambda>i. take 8 (lib_uuid4 L i)) [n..<n + length shps]"
proof (induction shps arbitrary: n)
  case Nil
  then show ?case by (simp add: blob_buildings_Nil)
next
  case (Cons p shps)
  have "[n..<n + length (p # shps)] = n # [Suc n..<Suc n + length shps]"
    by (simp add: upt_conv_Cons del: upt_Suc)
  with Cons.IH [of "Suc n"] show ?case
    by (simp add: blob_buildings_Cons del: upt_Suc)
qed

text \<open>
  Claim C9. The extractor labels the positive cells of the array and vectorizes the
  labelled array, cast to 8 bits, under the mask of its positive cells. Given that
  \<open>label\<close> is positive on the True cells and gives 4-adjacent True cells one label, and
  that \<open>shapes\<close> yields the maximal 4-connected regions of equal value under its mask,
  \<open>insert_user_buildings\<close> without a footprint array returns, and the blobs it stores
  cover exactly the maximal 4-connected regions of the positive cells, each region by one
  blob (cells that touch only at a corner are in different regions); the cast to 8 bits
  neither merges nor splits regions. The blobs carry, in order, the first eight characters
  of the uuids drawn. When no cell is positive the list of blobs is empty and there is no
  error.
\<close>

theorem blobs_are_regions4:
  fixes ha :: "('a :: {zero, ord}) ndarray"
  assumes "label_respects4 (positive ha) (fst (lib_label L (positive ha)))"
    and "shapes_are_regions pixels (astype_uint8 (fst (lib_label L (positive ha))))
      (positive (fst (lib_label L (positive ha)))) t
      (lib_shapes L (astype_uint8 (fst (lib_label L (positive ha))))
         (positive (fst (lib_label L (positive ha)))) t)"
  shows "\<exists>s'. insert_user_buildings L ha t None s = Inr s' \<and>
    distinct (map (blob_pixels pixels t) (user_buildings s')) \<and>
    set (map (blob_pixels pixels t) (user_buildings s')) = regions4 (cells_true (positive ha)) \<and>
    length (user_buildings s') = card (regions4 (cells_true (positive ha))) \<and>
    map parcel_id (user_buildings s') =
      map (\<lambda>i. take 8 (lib_uuid4 L i)) [0..<length (user_buildings s')] \<and>
    (cells_true (positive ha) = {} \<longrightarrow> user_buildings s' = [])"
proof -
  define lab where "lab = fst (lib_label L (positive ha))"
  define shps where "shps = lib_shapes L (astype_uint8 lab) (positive lab) t"
  have ex: "extract_shapes L ha t = shps"
    by (simp add: extract_shapes_def shps_def lab_def split: prod.splits)
  define s' where "s' = s\<lparr>is3D := False, removed_user_buildings := [],
    user_buildings_higher := [], user_buildings := blob_buildings L 0 shps\<rparr>"
  have run: "insert_user_buildings L ha t None s = Inr s'"
    by (simp add: insert_user_buildings_plain ex s'_def)
  have px: "map (blob_pixels pixels t) (user_buildings s') = map (\<lambda>(g, v). pixels t g) shps"
    by (simp add: s'_def blob_pixels_blob_buildings)
  from assms(2) have d: "distinct (map (\<lambda>(g, v). pixels t g) shps)"
    and r: "set (map (\<lambda>(g, v). pixels t g) shps) =
      regions (cells_true (positive lab)) (cell_at (astype_uint8 lab))"
    by (simp_all only: shapes_are_regions_def shps_def lab_def)
  from assms(1) have reg: "regions (cells_true (positive lab)) (cell_at (astype_uint8 lab)) =
      regions4 (cells_true (positive ha))"
    unfolding lab_def by (rule regions_after_cast)
  have d': "distinct (map (blob_pixels pixels t) (user_buildings s'))"
    using d by (simp only: px)
  have r': "set (map (blob_pixels pixels t) (user_buildings s')) =
      regions4 (cells_true (positive ha))"
    using r reg by (simp only: px)
  have "length (user_buildings s') = length (map (blob_pixels pixels t) (user_buildings s'))"
    by simp
  also have "\<dots> = card (set (map (blob_pixels pixels t) (user_buildings s')))"
    using d' by (simp only: distinct_card)
  finally have len: "length (user_buildings s') = card (regions4 (cells_true (positive ha)))"
    by (simp only: r')
  have empty: "user_buildings s' = []" if "cells_true (positive ha) = {}"
  proof -
    from that len have "length (user_buildings s') = 0"
      by (simp add: regions4_def regions_empty)
    then show ?thesis by simp
  qed
  have ids: "map parcel_id (user_buildings s') =
      map (\<lambda>i. take 8 (lib_uuid4 L i)) [0..<length (user_buildings s')]"
    by (simp add: s'_def parcel_id_blob_buildings length_blob_buildings)
  from run d' r' len ids empty show ?thesis
    by (intro exI [of _ s'] conjI impI)
qed

lemma ex_diagonal_positive: "positive ex_diagonal = [[True, False], [False, True]]"
  by (simp add: positive_def ex_diagonal_def)

lemma ex_diagonal_label:
  "lib_label ex_geo [[True, False], [False, True]] = ([[1, 0], [0, 2]], 2)"
  by (simp add: ex_geo_def ex_label_def ex_diagonal_positive)
    (simp add: positive_def ex_highest_def ex_footprint_def)

lemma ex_diagonal_cells: "cells_true [[True, False], [False, True]] = {(0, 0), (1, 1)}"
  by (auto simp: cells_true_def less_Suc_eq numeral_2_eq_2 nth_Cons' split: if_splits)

lemma ex_diagonal_steps: "steps {(0, 0), (1, 1)} val = {}"
  by (auto simp: steps_def adj4_def)

lemma ex_diagonal_regions: "regions {(0, 0), (1, 1)} val = {{(0, 0)}, {(1, 1)}}"
  unfolding regions_def ex_diagonal_steps by simp

theorem blobs_are_regions4_witness:
  "label_respects4 (positive ex_diagonal) (fst (lib_label ex_geo (positive ex_diagonal))) \<and>
   (\<exists>s'. insert_user_buildings ex_geo ex_diagonal () None ex_buildings_obj = Inr s' \<and>
      length (user_buildings s') = 2 \<and>
      set (map (blob_pixels ex_pixels ()) (user_buildings s')) = {{(0, 0)}, {(1, 1)}})"
proof -
  have pl: "positive [[1, 0], [0, 2 :: nat]] = [[True, False], [False, True]]"
    by (simp add: positive_def)
  have h1: "label_respects4 (positive ex_diagonal) (fst (lib_label ex_geo (positive ex_diagonal)))"
    unfolding label_respects4_def ex_diagonal_positive ex_diagonal_label fst_conv pl
      ex_diagonal_cells
    by (simp add: adj4_def)
  have img: "astype_uint8 [[1, 0], [0, 2]] = [[1, 0], [0, 2]]"
    by (simp add: astype_uint8_def)
  have sh: "lib_shapes ex_geo [[1, 0], [0, 2]] [[True, False], [False, True]] () =
      [([(0, 0)], 1), ([(1, 1)], 2)]"
    by (simp add: ex_geo_def ex_shapes_def)
  have h2: "shapes_are_regions ex_pixels
      (astype_uint8 (fst (lib_label ex_geo (positive ex_diagonal))))
      (positive (fst (lib_label ex_geo (positive ex_diagonal)))) ()
      (lib_shapes ex_geo (astype_uint8 (fst (lib_label ex_geo (positive ex_diagonal))))
         (positive (fst (lib_label ex_geo (positive ex_diagonal)))) ())"
    unfolding shapes_are_regions_def ex_diagonal_positive ex_diagonal_label fst_conv pl img sh
      ex_diagonal_cells ex_diagonal_regions
    by (simp add: ex_pixels_def)
  have reg: "regions4 (cells_true (positive ex_diagonal)) = {{(0, 0)}, {(1, 1)}}"
    unfolding regions4_def ex_diagonal_positive ex_diagonal_cells ex_diagonal_regions
    by (rule refl)
  from blobs_are_regions4 [OF h1 h2, of ex_buildings_obj] obtain s' where
    run: "insert_user_buildings ex_geo ex_diagonal () None ex_buildings_obj = Inr s'"
    and st: "set (map (blob_pixels ex_pixels ()) (user_buildings s')) =
      regions4 (cells_true (positive ex_diagonal))"
    and len: "length (user_buildings s') = card (regions4 (cells_true (positive ex_diagonal)))"
    by (elim exE conjE)
  have l2: "length (user_buildings s') = 2"
    unfolding len reg by simp
  from run l2 st [unfolded reg]
  have "\<exists>s'. insert_user_buildings ex_geo ex_diagonal () None ex_buildings_obj = Inr s' \<and>
      length (user_buildings s') = 2 \<and>
      set (map (blob_pixels ex_pixels ()) (user_buildings s')) = {{(0, 0)}, {(1, 1)}}"
    by (intro exI [of _ s'] conjI)
  with h1 show ?thesis
    by (rule conjI)
qed

end
